theory Spec2Isabelle
  imports Complex_Main "HOL-Library.Word"
begin

section \<open>Python values, exceptions and the effect log\<close>

text \<open>
  The middleware of \<^verbatim>\<open>scrapy_selenium/middlewares.py\<close> drives a selenium
  \<^verbatim>\<open>WebDriver\<close>. Everything the driver does is outside the repository, so it is a
  parameter of the model (\<open>backend\<close> below): for each call it says whether the call
  raises, and what a read returns. The model itself holds what the middleware controls:
  the attributes of the middleware object, which sessions it started and terminated, and
  the order of the calls it issued.

  Python floats are taken as reals, and the claims about them are stated where this is
  exact. A Python \<^verbatim>\<open>str\<close> that is encoded is a list of code points, other strings
  (names, urls, paths) are \<open>string\<close>.
\<close>

type_synonym byte = "8 word"
type_synonym pystr = "nat list"

datatype error =
    NotConfigured string
  | AttributeError string
  | KeyError string
  | TypeError
  | ImportError string
  | ValueError
  | OverflowError
  | OSError
  | UnicodeEncodeError
  | WebDriverException
  | TimeoutException

text \<open>The options object built in \<^verbatim>\<open>__init__\<close> (lines 58-66).\<close>

record options =
  binary_location :: "string option"
  arguments :: "string list"
  preferences :: "(string \<times> string) list"

text \<open>The values stored in \<^verbatim>\<open>self._driver_kwargs\<close> (lines 71-77).\<close>

datatype kwarg = NoneArg | StrArg string | OptionsArg options

type_synonym wait_condition = string

text \<open>The calls the middleware issues against \<^verbatim>\<open>self.driver\<close>.\<close>

datatype call =
    DeleteAllCookies
  | Quit
  | SetWindowSize real real
  | ClearPool
  | ReplacePool nat bool
  | AddCookie string string
  | Get string
  | Until wait_condition real
  | GetScreenshotAsPng
  | ExecuteScript string
  | PageSource
  | CurrentUrl

text \<open>
  The effect log: \<open>Sleep t\<close> is a completed \<^verbatim>\<open>time.sleep(t)\<close>, \<open>Started d\<close> a session
  that was created, \<open>Call d c\<close> a driver call that returned, \<open>Failed d c e\<close> one that
  raised \<open>e\<close>, \<open>SetReplaceDriver d\<close> the assignment of line 110, and \<open>Connected\<close> the
  signal registration of line 147.
\<close>

datatype event =
    Sleep real
  | Started nat
  | Call nat call
  | Failed nat call error
  | SetReplaceDriver nat
  | Connected

text \<open>
  The selenium side. Every answer may depend on all that happened before (the log), on the
  session and on the call. \<open>fails\<close> is \<open>None\<close> when the call returns.
\<close>

record backend =
  importable :: "string \<Rightarrow> bool"
  start_local_fails :: "event list \<Rightarrow> (string \<rightharpoonup> kwarg) \<Rightarrow> error option"
  start_remote_fails :: "event list \<Rightarrow> string \<Rightarrow> options \<Rightarrow> error option"
  fails :: "event list \<Rightarrow> nat \<Rightarrow> call \<Rightarrow> error option"
  page_source_of :: "event list \<Rightarrow> nat \<Rightarrow> pystr"
  current_url_of :: "event list \<Rightarrow> nat \<Rightarrow> string"
  screenshot_of :: "event list \<Rightarrow> nat \<Rightarrow> byte list"

text \<open>
  The world outside the middleware object: one liveness flag per session ever started
  (the index is the session's identity), the effect log, and how many times
  \<^verbatim>\<open>random.uniform\<close> was called.
\<close>

record world =
  alive :: "bool list"
  trace :: "event list"
  draws :: nat

text \<open>
  The attributes of a \<^verbatim>\<open>SeleniumMiddleware\<close> object. \<open>driver = None\<close> is the object
  before its first assignment to \<^verbatim>\<open>self.driver\<close>, where \<^verbatim>\<open>hasattr(self, 'driver')\<close>
  is false.
\<close>

record middleware =
  command_executor :: "string option"
  driver_name :: string
  driver_klass :: string
  driver_kwargs :: "string \<rightharpoonup> kwarg"
  driver :: "nat option"

type_synonym state = "middleware \<times> world"

text \<open>
  \<^verbatim>\<open>random.uniform\<close> and \<^verbatim>\<open>time.sleep\<close> are library functions, so what they do is a
  parameter as well. \<open>uniform_value rng n a c\<close> is the value the \<open>n\<close>-th call of
  \<^verbatim>\<open>random.uniform\<close> returns when it is called with the bounds \<open>a\<close> and \<open>c\<close>.
  \<open>sleep_refusal rng tr t\<close> is what the platform's clock raises, after the events
  \<open>tr\<close>, for a length \<open>t\<close> that passed the argument checks of \<^verbatim>\<open>time.sleep\<close>:
  \<open>None\<close> when it takes the length and the sleep completes. (CPython 3.11 on Linux
  sleeps until a deadline on the monotonic clock and raises OSError for a length that
  carries the deadline past the range of the kernel's clock, as the length 9223372036
  does.)
\<close>

record library =
  uniform_value :: "nat \<Rightarrow> real \<Rightarrow> real \<Rightarrow> real"
  sleep_refusal :: "event list \<Rightarrow> real \<Rightarrow> error option"

text \<open>
  What a settings key can hold where \<^verbatim>\<open>getint\<close> or \<^verbatim>\<open>getbool\<close> reads it: nothing (or
  \<^verbatim>\<open>None\<close>, which reads as unset), a bool, an integer, a float (finite, infinite or not a
  number), a string, or a value of another type. Both functions start with \<^verbatim>\<open>int(value)\<close>
  and need of a string only what they make of it: \<open>IntString k\<close> is a string that
  \<^verbatim>\<open>int\<close> reads as \<open>k\<close> (as \<^verbatim>\<open>'2'\<close> is read as 2), \<open>BoolString\<close> one of the four strings
  \<^verbatim>\<open>'True'\<close>, \<^verbatim>\<open>'true'\<close>, \<^verbatim>\<open>'False'\<close> and \<^verbatim>\<open>'false'\<close>, and \<open>OtherString\<close> any other
  string (as \<^verbatim>\<open>'0.5'\<close> or \<^verbatim>\<open>'fast'\<close>). \<open>OtherValue\<close> is a value that \<^verbatim>\<open>int\<close> does not
  convert, such as a list.
\<close>

datatype setting_value =
    Unset
  | BoolValue bool
  | IntValue int
  | FloatValue real
  | InfiniteValue
  | NanValue
  | IntString int
  | BoolString bool
  | OtherString
  | OtherValue

text \<open>The settings object read by \<^verbatim>\<open>from_crawler\<close> and \<^verbatim>\<open>process_request\<close>;
  an unset key reads as \<open>None\<close>. The two concurrency settings are taken as \<^verbatim>\<open>getint\<close>
  returns them, the delay and the randomization flag as they are configured.\<close>

record settings =
  SELENIUM_DRIVER_NAME :: "string option"
  SELENIUM_DRIVER_EXECUTABLE_PATH :: "string option"
  SELENIUM_BROWSER_EXECUTABLE_PATH :: "string option"
  SELENIUM_COMMAND_EXECUTOR :: "string option"
  SELENIUM_DRIVER_ARGUMENTS :: "string list option"
  SELENIUM_DRIVER_PREFERENCES :: "(string \<times> string) list option"
  SELENIUM_DRIVER_PROFILE :: "string option"
  CONCURRENT_REQUESTS :: int
  CONCURRENT_REQUESTS_PER_DOMAIN :: int
  DOWNLOAD_DELAY :: setting_value
  RANDOMIZE_DOWNLOAD_DELAY :: setting_value

section \<open>Actions: state passing with exceptions\<close>

text \<open>
  A Python statement is an action on a state: it returns a value or raises, and either way
  leaves a state behind. \<open>and_then\<close> is sequencing: an exception of the first action
  skips the rest.
\<close>

type_synonym ('s, 'a) action = "'s \<Rightarrow> (error + 'a) \<times> 's"

definition returns :: "'a \<Rightarrow> ('s, 'a) action" where
  "returns x = (\<lambda>s. (Inr x, s))"

definition raise :: "error \<Rightarrow> ('s, 'a) action" where
  "raise e = (\<lambda>s. (Inl e, s))"

definition and_then :: "('s, 'a) action \<Rightarrow> ('a \<Rightarrow> ('s, 'b) action) \<Rightarrow> ('s, 'b) action" where
  "and_then p f = (\<lambda>s. case p s of (Inl e, s') \<Rightarrow> (Inl e, s') | (Inr x, s') \<Rightarrow> f x s')"

section \<open>Primitives\<close>

text \<open>
  \<^verbatim>\<open>self.driver.<call>(...)\<close>: reading \<^verbatim>\<open>self.driver\<close> raises AttributeError when the
  attribute was never assigned; otherwise the backend decides whether the call raises.
  A \<^verbatim>\<open>quit()\<close> that returns ends the session. The action returns the session called.
\<close>

fun driver_call :: "backend \<Rightarrow> call \<Rightarrow> (state, nat) action" where
  "driver_call b c (m, w) =
     (case driver m of
        None \<Rightarrow> (Inl (AttributeError ''driver''), (m, w))
      | Some d \<Rightarrow>
          (case fails b (trace w) d c of
             Some e \<Rightarrow> (Inl e, (m, w\<lparr>trace := trace w @ [Failed d c e]\<rparr>))
           | None \<Rightarrow>
               (Inr d,
                (m, w\<lparr>alive := (if c = Quit then (alive w)[d := False] else alive w),
                      trace := trace w @ [Call d c]\<rparr>))))"

text \<open>The two property reads of lines 185 and 191; the value is the backend's answer
  at the moment of the read.\<close>

fun read_page_source :: "backend \<Rightarrow> (state, pystr) action" where
  "read_page_source b (m, w) =
     (case driver_call b PageSource (m, w) of
        (Inl e, s') \<Rightarrow> (Inl e, s')
      | (Inr d, s') \<Rightarrow> (Inr (page_source_of b (trace w) d), s'))"

fun read_current_url :: "backend \<Rightarrow> (state, string) action" where
  "read_current_url b (m, w) =
     (case driver_call b CurrentUrl (m, w) of
        (Inl e, s') \<Rightarrow> (Inl e, s')
      | (Inr d, s') \<Rightarrow> (Inr (current_url_of b (trace w) d), s'))"

fun read_screenshot :: "backend \<Rightarrow> (state, byte list) action" where
  "read_screenshot b (m, w) =
     (case driver_call b GetScreenshotAsPng (m, w) of
        (Inl e, s') \<Rightarrow> (Inl e, s')
      | (Inr d, s') \<Rightarrow> (Inr (screenshot_of b (trace w) d), s'))"

text \<open>\<^verbatim>\<open>random.uniform(a, c)\<close>: the value is the library's. It computes it in floating
  point as \<^verbatim>\<open>a + (c - a) * random()\<close> and documents that it lies between the two bounds,
  both included; the model does not redo that arithmetic.\<close>

fun uniform :: "library \<Rightarrow> real \<Rightarrow> real \<Rightarrow> (state, real) action" where
  "uniform rng a c (m, w) =
     (Inr (uniform_value rng (draws w) a c), (m, w\<lparr>draws := Suc (draws w)\<rparr>))"

text \<open>
  \<^verbatim>\<open>time.sleep(t)\<close> first checks its argument: it turns the length into a signed 64-bit
  count of nanoseconds, raises OverflowError when the count does not fit, and ValueError
  when it fits and is negative. For an integer length the count is exact: the lengths
  from 0 to 9223372036 pass, those from -9223372036 to -1 raise ValueError, all others
  OverflowError. For a float length the count is the float product rounded; the product
  is taken here over the reals, which gives the same verdict unless the length is within
  a microsecond of \<open>2^63\<close> nanoseconds. A length that passed is handed to the platform's
  clock.
\<close>

definition sleep_error :: "real \<Rightarrow> error option" where
  "sleep_error t =
     (if t * 10 ^ 9 < - (2 ^ 63) then Some OverflowError
      else if t < 0 then Some ValueError
      else if 2 ^ 63 \<le> t * 10 ^ 9 then Some OverflowError
      else None)"

fun sleep :: "library \<Rightarrow> real \<Rightarrow> (state, unit) action" where
  "sleep rng t (m, w) =
     (case sleep_error t of
        Some e \<Rightarrow> (Inl e, (m, w))
      | None \<Rightarrow>
          (case sleep_refusal rng (trace w) t of
             Some e \<Rightarrow> (Inl e, (m, w))
           | None \<Rightarrow> (Inr (), (m, w\<lparr>trace := trace w @ [Sleep t]\<rparr>))))"

text \<open>\<^verbatim>\<open>str.encode(text)\<close>: UTF-8, strict. A surrogate code point cannot be encoded.\<close>

definition encode_code_point :: "nat \<Rightarrow> byte list option" where
  "encode_code_point c =
     (if c < 0x80 then Some [of_nat c]
      else if c < 0x800 then Some [of_nat (0xC0 + c div 64), of_nat (0x80 + c mod 64)]
      else if 0xD800 \<le> c \<and> c < 0xE000 then None
      else if c < 0x10000 then
        Some [of_nat (0xE0 + c div 4096), of_nat (0x80 + c div 64 mod 64),
              of_nat (0x80 + c mod 64)]
      else if c < 0x110000 then
        Some [of_nat (0xF0 + c div 262144), of_nat (0x80 + c div 4096 mod 64),
              of_nat (0x80 + c div 64 mod 64), of_nat (0x80 + c mod 64)]
      else None)"

fun str_encode :: "pystr \<Rightarrow> error + byte list" where
  "str_encode [] = Inr []"
| "str_encode (c # cs) =
     (case encode_code_point c of
        None \<Rightarrow> Inl UnicodeEncodeError
      | Some bs \<Rightarrow>
          (case str_encode cs of Inl e \<Rightarrow> Inl e | Inr rest \<Rightarrow> Inr (bs @ rest)))"

section \<open>replace_driver (lines 81-112)\<close>

text \<open>Lines 82-84: the old driver, when there is one, loses its cookies and is quit.
  Neither call is guarded by a \<^verbatim>\<open>try\<close>.\<close>

fun quit_old :: "backend \<Rightarrow> (state, unit) action" where
  "quit_old b (m, w) =
     (if driver m \<noteq> None then
        and_then (driver_call b DeleteAllCookies) (\<lambda>_.
        and_then (driver_call b Quit) (\<lambda>_.
        returns ())) (m, w)
      else (Inr (), (m, w)))"

text \<open>Line 88: the driver class is instantiated and assigned to \<^verbatim>\<open>self.driver\<close>.\<close>

fun start_local :: "backend \<Rightarrow> (state, unit) action" where
  "start_local b (m, w) =
     (case start_local_fails b (trace w) (driver_kwargs m) of
        Some e \<Rightarrow> (Inl e, (m, w))
      | None \<Rightarrow>
          (Inr (),
           (m\<lparr>driver := Some (length (alive w))\<rparr>,
            w\<lparr>alive := alive w @ [True],
              trace := trace w @ [Started (length (alive w))]\<rparr>)))"

text \<open>Lines 88-100, the locally installed driver.\<close>

definition local_session :: "backend \<Rightarrow> library \<Rightarrow> (state, unit) action" where
  "local_session b rng =
     and_then (start_local b) (\<lambda>_.
     and_then (uniform rng (1920 * 0.5) 1920) (\<lambda>width.
     and_then (uniform rng (1080 * 0.5) 1080) (\<lambda>height.
     and_then (driver_call b (SetWindowSize width height)) (\<lambda>_.
     and_then (driver_call b ClearPool) (\<lambda>_.
     and_then (driver_call b (ReplacePool 1 False)) (\<lambda>_.
     returns ()))))))"

text \<open>
  Line 104 formats \<^verbatim>\<open>self._driver_name_options\<close> into the key of the options. The
  object has the five attributes of \<open>middleware\<close> and no other, so the attribute read
  raises AttributeError before the dictionary is looked at.
\<close>

definition remote_options_key :: "middleware \<Rightarrow> error + string" where
  "remote_options_key m = Inl (AttributeError ''_driver_name_options'')"

fun start_remote :: "backend \<Rightarrow> string \<Rightarrow> options \<Rightarrow> (state, unit) action" where
  "start_remote b endpoint capabilities (m, w) =
     (case start_remote_fails b (trace w) endpoint capabilities of
        Some e \<Rightarrow> (Inl e, (m, w))
      | None \<Rightarrow>
          (Inr (),
           (m\<lparr>driver := Some (length (alive w))\<rparr>,
            w\<lparr>alive := alive w @ [True],
              trace := trace w @ [Started (length (alive w))]\<rparr>)))"

text \<open>Lines 103-108, the remote driver.\<close>

fun remote_session :: "backend \<Rightarrow> string \<Rightarrow> (state, unit) action" where
  "remote_session b endpoint (m, w) =
     (case remote_options_key m of
        Inl e \<Rightarrow> (Inl e, (m, w))
      | Inr key \<Rightarrow>
          (case driver_kwargs m key of
             Some (OptionsArg capabilities) \<Rightarrow> start_remote b endpoint capabilities (m, w)
           | Some _ \<Rightarrow> (Inl (AttributeError ''to_capabilities''), (m, w))
           | None \<Rightarrow> (Inl (KeyError key), (m, w))))"

text \<open>Lines 87 and 102: which of the two branches runs, if any.\<close>

fun create_session :: "backend \<Rightarrow> library \<Rightarrow> (state, unit) action" where
  "create_session b rng (m, w) =
     (case driver_kwargs m ''executable_path'' of
        None \<Rightarrow> (Inl (KeyError ''executable_path''), (m, w))
      | Some a \<Rightarrow>
          if a \<noteq> NoneArg then local_session b rng (m, w)
          else (case command_executor m of
                  Some endpoint \<Rightarrow> remote_session b endpoint (m, w)
                | None \<Rightarrow> (Inr (), (m, w))))"

text \<open>Lines 110-112: the hook is set on \<^verbatim>\<open>self.driver\<close>, which is returned.\<close>

fun install_hook :: "(state, nat) action" where
  "install_hook (m, w) =
     (case driver m of
        None \<Rightarrow> (Inl (AttributeError ''driver''), (m, w))
      | Some d \<Rightarrow> (Inr d, (m, w\<lparr>trace := trace w @ [SetReplaceDriver d]\<rparr>)))"

definition replace_driver :: "backend \<Rightarrow> library \<Rightarrow> (state, nat) action" where
  "replace_driver b rng =
     and_then (quit_old b) (\<lambda>_.
     and_then (create_session b rng) (\<lambda>_.
     install_hook))"

section \<open>The constructor and from_crawler (lines 18-79 and 114-149)\<close>

text \<open>
  \<^verbatim>\<open>__init__\<close>: the two imports, the options, the attributes, then \<^verbatim>\<open>replace_driver\<close>.
  Iterating over arguments that are \<^verbatim>\<open>None\<close> raises TypeError, and
  \<^verbatim>\<open>None.items()\<close> raises AttributeError. When the constructor raises there is no
  object; the world keeps what was done. The options object refuses an empty argument:
  \<^verbatim>\<open>add_argument('')\<close> raises ValueError.

  Lines 58-66, the options: an empty browser path counts as not given, and the preferences
  are set for firefox only.
\<close>

definition build_options ::
  "string \<Rightarrow> string option \<Rightarrow> string list \<Rightarrow> (string \<times> string) list \<Rightarrow> options" where
  "build_options name browser_executable_path driver_arguments driver_preferences =
     \<lparr>binary_location =
        (case browser_executable_path of
           None \<Rightarrow> None
         | Some p \<Rightarrow> if p = [] then None else Some p),
      arguments = driver_arguments,
      preferences = (if name = ''firefox'' then driver_preferences else [])\<rparr>"

text \<open>Lines 68-77: the attributes set before the first \<^verbatim>\<open>replace_driver\<close>; there is no
  \<^verbatim>\<open>driver\<close> attribute yet. Line 77 is read as the body of the \<^verbatim>\<open>if\<close> of line 76 (the
  source has it at the indentation of that \<^verbatim>\<open>if\<close>): the profile is passed on for firefox,
  when one is given.\<close>

definition new_middleware ::
  "string \<Rightarrow> string option \<Rightarrow> string option \<Rightarrow> options \<Rightarrow> string option \<Rightarrow> middleware" where
  "new_middleware name driver_executable_path executor driver_options driver_profile =
     (let kwargs =
            [''executable_path'' \<mapsto>
               (case driver_executable_path of None \<Rightarrow> NoneArg | Some p \<Rightarrow> StrArg p),
             name @ ''_options'' \<mapsto> OptionsArg driver_options]
      in \<lparr>command_executor = executor, driver_name = name, driver_klass = name,
          driver_kwargs =
            (if name = ''firefox'' then
               (case driver_profile of
                  None \<Rightarrow> kwargs
                | Some p \<Rightarrow> kwargs(''firefox_profile'' \<mapsto> StrArg p))
             else kwargs),
          driver = None\<rparr>)"

definition init ::
  "backend \<Rightarrow> library \<Rightarrow> string \<Rightarrow> string option \<Rightarrow> string option \<Rightarrow> string option \<Rightarrow>
   string list option \<Rightarrow> (string \<times> string) list option \<Rightarrow> string option \<Rightarrow> int \<Rightarrow> int \<Rightarrow>
   world \<Rightarrow> (error + middleware) \<times> world" where
  "init b rng name driver_executable_path browser_executable_path executor
        driver_arguments driver_preferences driver_profile concurrent_requests
        concurrent_requests_per_domain w =
     (if \<not> importable b name then (Inl (ImportError name), w)
      else case driver_arguments of
        None \<Rightarrow> (Inl TypeError, w)
      | Some args \<Rightarrow>
          if [] \<in> set args then (Inl ValueError, w)
          else if name = ''firefox'' \<and> driver_preferences = None
          then (Inl (AttributeError ''items''), w)
          else
            (case replace_driver b rng
                    (new_middleware name driver_executable_path executor
                       (build_options name browser_executable_path args
                          (case driver_preferences of None \<Rightarrow> [] | Some ps \<Rightarrow> ps))
                       driver_profile, w) of
               (Inl e, (self, w')) \<Rightarrow> (Inl e, w')
             | (Inr _, (self, w')) \<Rightarrow> (Inr self, w')))"

definition from_crawler ::
  "backend \<Rightarrow> library \<Rightarrow> settings \<Rightarrow> world \<Rightarrow> (error + middleware) \<times> world" where
  "from_crawler b rng crawler w =
     (case SELENIUM_DRIVER_NAME crawler of
        None \<Rightarrow> (Inl (NotConfigured ''SELENIUM_DRIVER_NAME must be set''), w)
      | Some name \<Rightarrow>
          if SELENIUM_DRIVER_EXECUTABLE_PATH crawler = None
             \<and> SELENIUM_COMMAND_EXECUTOR crawler = None
          then (Inl (NotConfigured
                  ''Either SELENIUM_DRIVER_EXECUTABLE_PATH or SELENIUM_COMMAND_EXECUTOR must be set''), w)
          else
            (case init b rng name (SELENIUM_DRIVER_EXECUTABLE_PATH crawler)
                    (SELENIUM_BROWSER_EXECUTABLE_PATH crawler)
                    (SELENIUM_COMMAND_EXECUTOR crawler)
                    (SELENIUM_DRIVER_ARGUMENTS crawler)
                    (SELENIUM_DRIVER_PREFERENCES crawler)
                    (SELENIUM_DRIVER_PROFILE crawler)
                    (CONCURRENT_REQUESTS crawler)
                    (CONCURRENT_REQUESTS_PER_DOMAIN crawler) w of
               (Inl e, w') \<Rightarrow> (Inl e, w')
             | (Inr middleware, w') \<Rightarrow>
                 (Inr middleware, w'\<lparr>trace := trace w' @ [Connected]\<rparr>)))"

section \<open>spider_closed (lines 197-200)\<close>

definition spider_closed :: "backend \<Rightarrow> (state, unit) action" where
  "spider_closed b = and_then (driver_call b Quit) (\<lambda>_. returns ())"

section \<open>process_request (lines 151-195)\<close>

text \<open>
  Modelled from the spec: the request classes (\<^verbatim>\<open>scrapy_selenium/http.py\<close> and scrapy's
  \<^verbatim>\<open>Request\<close>) are not among the sources. A request exposes \<open>url\<close>, \<open>cookies\<close> (a
  mapping, here its items in insertion order), an optional wait condition with its
  timeout, the screenshot flag, an optional script, a metadata map, and a type marker
  telling a browser-fetch request (\<^verbatim>\<open>SeleniumRequest\<close>) from an ordinary one.
\<close>

datatype meta_value = MBytes "byte list" | MDriver nat | MOther string

record request =
  is_selenium_request :: bool
  url :: string
  cookies :: "(string \<times> string) list"
  wait_until :: "wait_condition option"
  wait_time :: real
  screenshot :: bool
  script :: "string option"
  meta :: "string \<rightharpoonup> meta_value"

text \<open>The \<^verbatim>\<open>HtmlResponse\<close> built in lines 190-195.\<close>

record response =
  response_url :: string
  body :: "byte list"
  encoding :: string
  response_request :: request

text \<open>While a request is processed, the state is the request object (its metadata is
  mutated) together with the middleware and the world.\<close>

type_synonym pstate = "request \<times> state"

fun on_driver :: "(state, 'a) action \<Rightarrow> (pstate, 'a) action" where
  "on_driver p (rq, s) = (case p s of (r, s') \<Rightarrow> (r, (rq, s')))"

text \<open>
  Line 157, \<^verbatim>\<open>spider.settings.getint('DOWNLOAD_DELAY')\<close>, which is \<^verbatim>\<open>int(value)\<close> with 0
  for an unset key: a bool is 0 or 1, an integer is itself, a float is cut toward zero
  (0.5 gives 0, 1.5 gives 1, -1.5 gives -1), an infinite float raises OverflowError, a
  float that is not a number or a string that is not an integer literal raises ValueError,
  and a value of another type raises TypeError.
\<close>

definition int_of_float :: "real \<Rightarrow> int" where
  "int_of_float x = (if 0 \<le> x then \<lfloor>x\<rfloor> else \<lceil>x\<rceil>)"

definition getint :: "setting_value \<Rightarrow> error + int" where
  "getint v =
     (case v of
        Unset \<Rightarrow> Inr 0
      | BoolValue flag \<Rightarrow> Inr (if flag then 1 else 0)
      | IntValue k \<Rightarrow> Inr k
      | FloatValue x \<Rightarrow> Inr (int_of_float x)
      | InfiniteValue \<Rightarrow> Inl OverflowError
      | NanValue \<Rightarrow> Inl ValueError
      | IntString k \<Rightarrow> Inr k
      | BoolString flag \<Rightarrow> Inl ValueError
      | OtherString \<Rightarrow> Inl ValueError
      | OtherValue \<Rightarrow> Inl TypeError)"

text \<open>
  Line 158, \<^verbatim>\<open>spider.settings.getbool('RANDOMIZE_DOWNLOAD_DELAY')\<close>, which is
  \<^verbatim>\<open>bool(int(value))\<close> with \<open>False\<close> for an unset key; when \<^verbatim>\<open>int\<close> raises ValueError,
  the strings \<^verbatim>\<open>'True'\<close> and \<^verbatim>\<open>'true'\<close> give \<open>True\<close>, \<^verbatim>\<open>'False'\<close> and \<^verbatim>\<open>'false'\<close>
  give \<open>False\<close>, and every other value raises ValueError. The other errors of \<^verbatim>\<open>int\<close>
  are not caught.
\<close>

definition getbool :: "setting_value \<Rightarrow> error + bool" where
  "getbool v =
     (case v of
        Unset \<Rightarrow> Inr False
      | BoolValue flag \<Rightarrow> Inr flag
      | IntValue k \<Rightarrow> Inr (k \<noteq> 0)
      | FloatValue x \<Rightarrow> Inr (int_of_float x \<noteq> 0)
      | InfiniteValue \<Rightarrow> Inl OverflowError
      | NanValue \<Rightarrow> Inl ValueError
      | IntString k \<Rightarrow> Inr (k \<noteq> 0)
      | BoolString flag \<Rightarrow> Inr flag
      | OtherString \<Rightarrow> Inl ValueError
      | OtherValue \<Rightarrow> Inl TypeError)"

text \<open>
  The products \<^verbatim>\<open>0.5 * delay\<close> and \<^verbatim>\<open>1.5 * delay\<close> of line 161 first turn the integer
  into a float, which raises OverflowError from \<open>2^1024 - 2^970\<close> on. Up to \<open>2^51\<close> the
  two products are exact floats, the reals they are here. Beyond, the float products are
  rounded (to infinity, for the largest delays), and every sample is far outside what
  \<^verbatim>\<open>time.sleep\<close> accepts; the claims below do not go there.
\<close>

definition float_limit :: int where
  "float_limit = 2 ^ 1024 - 2 ^ 970"

text \<open>Lines 157-162. Both settings are read before anything else is done;
  \<^verbatim>\<open>if delay:\<close> is true for every nonzero integer; without randomization the integer
  itself is passed to \<^verbatim>\<open>time.sleep\<close>.\<close>

definition pacing :: "library \<Rightarrow> settings \<Rightarrow> (state, unit) action" where
  "pacing rng spider =
     (\<lambda>s. case getint (DOWNLOAD_DELAY spider) of
        Inl e \<Rightarrow> (Inl e, s)
      | Inr delay \<Rightarrow>
          (case getbool (RANDOMIZE_DOWNLOAD_DELAY spider) of
             Inl e \<Rightarrow> (Inl e, s)
           | Inr randomize_delay \<Rightarrow>
               if delay \<noteq> 0 then
                 (if randomize_delay then
                    (if float_limit \<le> \<bar>delay\<bar> then (Inl OverflowError, s)
                     else and_then
                            (uniform rng (0.5 * real_of_int delay) (1.5 * real_of_int delay))
                            (sleep rng) s)
                  else sleep rng (real_of_int delay) s)
               else (Inr (), s)))"

text \<open>Lines 164-170: the loop over \<^verbatim>\<open>request.cookies.items()\<close>.\<close>

fun add_cookies :: "backend \<Rightarrow> (string \<times> string) list \<Rightarrow> (state, unit) action" where
  "add_cookies b [] = returns ()"
| "add_cookies b ((cookie_name, cookie_value) # rest) =
     and_then (driver_call b (AddCookie cookie_name cookie_value)) (\<lambda>_. add_cookies b rest)"

text \<open>Lines 174-177: \<^verbatim>\<open>WebDriverWait(...).until(...)\<close>, when a condition is given.\<close>

definition wait :: "backend \<Rightarrow> request \<Rightarrow> (state, unit) action" where
  "wait b request =
     (case wait_until request of
        None \<Rightarrow> returns ()
      | Some condition \<Rightarrow>
          and_then (driver_call b (Until condition (wait_time request))) (\<lambda>_. returns ()))"

text \<open>Lines 179-180.\<close>

fun take_screenshot :: "backend \<Rightarrow> (pstate, unit) action" where
  "take_screenshot b (rq, s) =
     (if screenshot rq then
        (case read_screenshot b s of
           (Inl e, s') \<Rightarrow> (Inl e, (rq, s'))
         | (Inr png, s') \<Rightarrow>
             (Inr (), (rq\<lparr>meta := (meta rq)(''screenshot'' \<mapsto> MBytes png)\<rparr>, s')))
      else (Inr (), (rq, s)))"

text \<open>Lines 182-183: \<^verbatim>\<open>if request.script:\<close> is false for \<^verbatim>\<open>None\<close> and for the empty
  string.\<close>

definition run_script :: "backend \<Rightarrow> request \<Rightarrow> (state, unit) action" where
  "run_script b request =
     (case script request of
        None \<Rightarrow> returns ()
      | Some text \<Rightarrow>
          if text = [] then returns ()
          else and_then (driver_call b (ExecuteScript text)) (\<lambda>_. returns ()))"

text \<open>Line 185, the encoding of the markup.\<close>

definition encode :: "pystr \<Rightarrow> (pstate, byte list) action" where
  "encode text = (\<lambda>ps. (str_encode text, ps))"

text \<open>Line 188: \<^verbatim>\<open>request.meta.update({'driver': self.driver})\<close>.\<close>

fun expose_driver :: "(pstate, unit) action" where
  "expose_driver (rq, (m, w)) =
     (case driver m of
        None \<Rightarrow> (Inl (AttributeError ''driver''), (rq, (m, w)))
      | Some d \<Rightarrow> (Inr (), (rq\<lparr>meta := (meta rq)(''driver'' \<mapsto> MDriver d)\<rparr>, (m, w))))"

text \<open>Lines 190-195: the response holds the request object itself.\<close>

fun html_response :: "string \<Rightarrow> byte list \<Rightarrow> (pstate, response option) action" where
  "html_response current_url page_bytes (rq, s) =
     (Inr (Some \<lparr>response_url = current_url, body = page_bytes, encoding = ''utf-8'',
                 response_request = rq\<rparr>),
      (rq, s))"

definition process_request ::
  "backend \<Rightarrow> library \<Rightarrow> request \<Rightarrow> settings \<Rightarrow> state \<Rightarrow> (error + response option) \<times> pstate"
  where
  "process_request b rng request spider s =
     (if \<not> is_selenium_request request then (Inr None, (request, s))
      else
        and_then (on_driver (pacing rng spider)) (\<lambda>_.
        and_then (on_driver (add_cookies b (cookies request))) (\<lambda>_.
        and_then (on_driver (driver_call b (Get (url request)))) (\<lambda>_.
        and_then (on_driver (wait b request)) (\<lambda>_.
        and_then (take_screenshot b) (\<lambda>_.
        and_then (on_driver (run_script b request)) (\<lambda>_.
        and_then (on_driver (read_page_source b)) (\<lambda>page_source.
        and_then (encode page_source) (\<lambda>page_bytes.
        and_then expose_driver (\<lambda>_.
        and_then (on_driver (read_current_url b)) (\<lambda>current_url.
        html_response current_url page_bytes)))))))))) (request, s))"

section \<open>Concrete inputs\<close>

text \<open>A backend on which every call returns: the page source is the two code points of
  \<^verbatim>\<open>h\<close> and e-acute, at
  \<^verbatim>\<open>http://example.test/\<close>, the screenshot one byte.\<close>

definition working_backend :: backend where
  "working_backend =
     \<lparr>importable = (\<lambda>_. True),
      start_local_fails = (\<lambda>_ _. None),
      start_remote_fails = (\<lambda>_ _ _. None),
      fails = (\<lambda>_ _ _. None),
      page_source_of = (\<lambda>_ _. [104, 233]),
      current_url_of = (\<lambda>_ _. ''http://example.test/''),
      screenshot_of = (\<lambda>_ _. [137])\<rparr>"

text \<open>The library whose \<^verbatim>\<open>random.uniform\<close> always returns the value halfway between
  the bounds, and whose clock takes every length.\<close>

definition half :: library where
  "half = \<lparr>uniform_value = (\<lambda>n a c. (a + c) / 2), sleep_refusal = (\<lambda>tr t. None)\<rparr>"

definition empty_world :: world where
  "empty_world = \<lparr>alive = [], trace = [], draws = 0\<rparr>"

definition local_settings :: settings where
  "local_settings =
     \<lparr>SELENIUM_DRIVER_NAME = Some ''chrome'',
      SELENIUM_DRIVER_EXECUTABLE_PATH = Some ''/usr/bin/chromedriver'',
      SELENIUM_BROWSER_EXECUTABLE_PATH = None,
      SELENIUM_COMMAND_EXECUTOR = None,
      SELENIUM_DRIVER_ARGUMENTS = Some [''--headless''],
      SELENIUM_DRIVER_PREFERENCES = None,
      SELENIUM_DRIVER_PROFILE = None,
      CONCURRENT_REQUESTS = 1,
      CONCURRENT_REQUESTS_PER_DOMAIN = 1,
      DOWNLOAD_DELAY = IntValue 0,
      RANDOMIZE_DOWNLOAD_DELAY = BoolValue False\<rparr>"

definition remote_settings :: settings where
  "remote_settings =
     local_settings\<lparr>SELENIUM_DRIVER_EXECUTABLE_PATH := None,
                    SELENIUM_COMMAND_EXECUTOR := Some ''http://localhost:4444/wd/hub''\<rparr>"

text \<open>The middleware object \<^verbatim>\<open>from_crawler\<close> builds from \<open>local_settings\<close>, with its
  first session running.\<close>

definition local_middleware :: middleware where
  "local_middleware =
     \<lparr>command_executor = None, driver_name = ''chrome'', driver_klass = ''chrome'',
      driver_kwargs =
        [''executable_path'' \<mapsto> StrArg ''/usr/bin/chromedriver'',
         ''chrome_options'' \<mapsto>
           OptionsArg \<lparr>binary_location = None, arguments = [''--headless''],
                       preferences = []\<rparr>],
      driver = Some 0\<rparr>"

definition one_session :: world where
  "one_session = \<lparr>alive = [True], trace = [], draws = 0\<rparr>"

definition plain_request :: request where
  "plain_request =
     \<lparr>is_selenium_request = False, url = ''http://example.test'', cookies = [],
      wait_until = None, wait_time = 0, screenshot = False, script = None,
      meta = Map.empty\<rparr>"

definition browser_request :: request where
  "browser_request =
     \<lparr>is_selenium_request = True, url = ''http://example.test'',
      cookies = [(''a'', ''1''), (''b'', ''2'')],
      wait_until = Some ''title_is'', wait_time = 2, screenshot = True,
      script = Some ''window.scrollTo(0, 0)'', meta = [''depth'' \<mapsto> MOther ''1'']\<rparr>"

text \<open>Backends on which one kind of call raises: the cookie purge, the quit, and a
  quit of a session that was quit before (what a remote server answers for a session it
  no longer knows).\<close>

definition purge_fails :: backend where
  "purge_fails =
     working_backend
       \<lparr>fails := (\<lambda>tr d c. if c = DeleteAllCookies then Some WebDriverException else None)\<rparr>"

definition quit_fails :: backend where
  "quit_fails =
     working_backend\<lparr>fails := (\<lambda>tr d c. if c = Quit then Some WebDriverException else None)\<rparr>"

definition strict_backend :: backend where
  "strict_backend =
     working_backend
       \<lparr>fails := (\<lambda>tr d c. if Call d Quit \<in> set tr then Some WebDriverException else None)\<rparr>"

text \<open>A backend on which no wait condition is ever met, settings with a delay, and the
  outcome of fetching \<open>browser_request\<close> on the working backend.\<close>

definition never_met :: backend where
  "never_met =
     working_backend
       \<lparr>fails := (\<lambda>tr d c. case c of Until condition t \<Rightarrow> Some TimeoutException | _ \<Rightarrow> None)\<rparr>"













definition fetched_request :: request where
  "fetched_request =
     browser_request
       \<lparr>meta := [''depth'' \<mapsto> MOther ''1'', ''screenshot'' \<mapsto> MBytes [137],
                 ''driver'' \<mapsto> MDriver 0]\<rparr>"

definition fetch_events :: "event list" where
  "fetch_events =
     [Call 0 (AddCookie ''a'' ''1''), Call 0 (AddCookie ''b'' ''2''),
      Call 0 (Get ''http://example.test''), Call 0 (Until ''title_is'' 2),
      Call 0 GetScreenshotAsPng, Call 0 (ExecuteScript ''window.scrollTo(0, 0)''),
      Call 0 PageSource, Call 0 CurrentUrl]"

definition fetched_response :: response where
  "fetched_response =
     \<lparr>response_url = ''http://example.test/'', body = [104, 195, 169], encoding = ''utf-8'',
      response_request = fetched_request\<rparr>"

text \<open>The world after \<^verbatim>\<open>from_crawler\<close> on \<open>local_settings\<close>, and the states after one
  and after two further calls of \<^verbatim>\<open>replace_driver\<close>.\<close>

definition after_start :: world where
  "after_start =
     \<lparr>alive = [True],
      trace = [Started 0, Call 0 (SetWindowSize 1440 810), Call 0 ClearPool,
               Call 0 (ReplacePool 1 False), SetReplaceDriver 0, Connected],
      draws = 2\<rparr>"

definition first_replaced :: state where
  "first_replaced =
     (local_middleware\<lparr>driver := Some 1\<rparr>,
      \<lparr>alive = [False, True],
       trace = trace after_start @
         [Call 0 DeleteAllCookies, Call 0 Quit, Started 1, Call 1 (SetWindowSize 1440 810),
          Call 1 ClearPool, Call 1 (ReplacePool 1 False), SetReplaceDriver 1],
       draws = 4\<rparr>)"

definition second_replaced :: state where
  "second_replaced =
     (local_middleware\<lparr>driver := Some 2\<rparr>,
      \<lparr>alive = [False, False, True],
       trace = trace (snd first_replaced) @
         [Call 1 DeleteAllCookies, Call 1 Quit, Started 2, Call 2 (SetWindowSize 1440 810),
          Call 2 ClearPool, Call 2 (ReplacePool 1 False), SetReplaceDriver 2],
       draws = 6\<rparr>)"

section \<open>Observations of a run\<close>

text \<open>An action keeps an observation of the state when the observation is the same after
  it, whether it returned or raised.\<close>

definition keeps :: "('s \<Rightarrow> 'o) \<Rightarrow> ('s, 'a) action \<Rightarrow> bool" where
  "keeps obs p \<longleftrightarrow> (\<forall>s. obs (snd (p s)) = obs s)"

text \<open>What the claims about sessions look at: the middleware object and the liveness
  flags.\<close>

definition session_view :: "state \<Rightarrow> middleware \<times> bool list" where
  "session_view s = (fst s, alive (snd s))"



fun call_of :: "event \<Rightarrow> call option" where
  "call_of (Call d c) = Some c"
| "call_of (Failed d c e) = Some c"
| "call_of _ = None"

fun cookie_or_get :: "call \<Rightarrow> bool" where
  "cookie_or_get (AddCookie n v) = True"
| "cookie_or_get (Get u) = True"
| "cookie_or_get _ = False"

definition after_navigation :: "event \<Rightarrow> bool" where
  "after_navigation ev = (case call_of ev of None \<Rightarrow> False | Some c \<Rightarrow> \<not> cookie_or_get c)"

text \<open>The steps of \<^verbatim>\<open>process_request\<close> after the navigation (lines 174-195), named so
  that the proofs can speak about them.\<close>

definition finish :: "backend \<Rightarrow> request \<Rightarrow> (pstate, response option) action" where
  "finish b request =
        and_then (on_driver (wait b request)) (\<lambda>_.
        and_then (take_screenshot b) (\<lambda>_.
        and_then (on_driver (run_script b request)) (\<lambda>_.
        and_then (on_driver (read_page_source b)) (\<lambda>page_source.
        and_then (encode page_source) (\<lambda>page_bytes.
        and_then expose_driver (\<lambda>_.
        and_then (on_driver (read_current_url b)) (\<lambda>current_url.
        html_response current_url page_bytes)))))))"

text \<open>The log as seen from each kind of state, and the actions that only append events of
  a given kind to it.\<close>

definition plog :: "pstate \<Rightarrow> event list" where
  "plog ps = trace (snd (snd ps))"

definition slog :: "state \<Rightarrow> event list" where
  "slog s = trace (snd s)"

definition appends :: "('s \<Rightarrow> event list) \<Rightarrow> (event \<Rightarrow> bool) \<Rightarrow> ('s, 'a) action \<Rightarrow> bool" where
  "appends lg P p \<longleftrightarrow> (\<forall>s. \<exists>new. lg (snd (p s)) = lg s @ new \<and> list_all P new)"

text \<open>The calls that reach a middleware object after \<^verbatim>\<open>from_crawler\<close> returned it:
  \<^verbatim>\<open>replace_driver\<close> (also through the hook of line 110), \<^verbatim>\<open>process_request\<close> and
  \<^verbatim>\<open>spider_closed\<close>. A run is any sequence of them; an exception ends one call and leaves
  the state it reached.\<close>

datatype operation = ReplaceDriver | ProcessRequest request settings | SpiderClosed

fun step :: "backend \<Rightarrow> library \<Rightarrow> operation \<Rightarrow> state \<Rightarrow> state" where
  "step b rng ReplaceDriver s = snd (replace_driver b rng s)"
| "step b rng (ProcessRequest request spider) s = snd (snd (process_request b rng request spider s))"
| "step b rng SpiderClosed s = snd (spider_closed b s)"

fun run :: "backend \<Rightarrow> library \<Rightarrow> operation list \<Rightarrow> state \<Rightarrow> state" where
  "run b rng [] s = s"
| "run b rng (op # ops) s = run b rng ops (step b rng op s)"

text \<open>The invariant of the session manager, on the middleware and the liveness flags:
  the driver is a session that was started, and a session that is alive is the driver.
  Between the quit of the old session and the start of the new one no session is alive.\<close>

definition manager_inv :: "middleware \<times> bool list \<Rightarrow> bool" where
  "manager_inv v \<longleftrightarrow>
     (case driver (fst v) of None \<Rightarrow> True | Some d \<Rightarrow> d < length (snd v)) \<and>
     (\<forall>i < length (snd v). snd v ! i \<longrightarrow> driver (fst v) = Some i)"

definition none_alive :: "middleware \<times> bool list \<Rightarrow> bool" where
  "none_alive v \<longleftrightarrow>
     (case driver (fst v) of None \<Rightarrow> True | Some d \<Rightarrow> d < length (snd v)) \<and>
     (\<forall>i < length (snd v). \<not> snd v ! i)"

section \<open>Pass-through of ordinary requests\<close>

text \<open>
  C4. A request that is not a \<^verbatim>\<open>SeleniumRequest\<close> makes \<^verbatim>\<open>process_request\<close> return
  \<^verbatim>\<open>None\<close> and nothing else happens: the request, the middleware, the sessions, the
  random draws and the effect log (so no sleep, no cookie, no navigation, no script, no
  read) are what they were.
\<close>

theorem process_request_passes_ordinary_requests:
  "\<not> is_selenium_request request \<Longrightarrow>
     process_request b rng request spider s = (Inr None, (request, s))"
  by (simp add: process_request_def)

theorem process_request_passes_ordinary_requests_witness:
  "\<not> is_selenium_request plain_request \<and>
   process_request working_backend half plain_request local_settings
     (local_middleware, one_session) = (Inr None, (plain_request, (local_middleware, one_session)))"
  using process_request_passes_ordinary_requests
    [of plain_request working_backend half local_settings "(local_middleware, one_session)"]
  by (simp add: plain_request_def)

section \<open>Creating the session\<close>

lemma from_crawler_local_settings:
  "from_crawler working_backend half local_settings empty_world =
     (Inr local_middleware,
      \<lparr>alive = [True],
       trace = [Started 0, Call 0 (SetWindowSize 1440 810), Call 0 ClearPool,
                Call 0 (ReplacePool 1 False), SetReplaceDriver 0, Connected],
       draws = 2\<rparr>)"
  by (simp add: from_crawler_def init_def new_middleware_def build_options_def local_settings_def
      working_backend_def replace_driver_def and_then_def local_session_def returns_def empty_world_def
      local_middleware_def half_def)

lemma from_crawler_not_configured:
  assumes "SELENIUM_DRIVER_EXECUTABLE_PATH crawler = None"
    and "SELENIUM_COMMAND_EXECUTOR crawler = None"
  shows "\<exists>text. from_crawler b rng crawler w = (Inl (NotConfigured text), w)"
  using assms by (simp add: from_crawler_def split: option.splits)

lemma replace_driver_local_starts_session:
  assumes "driver_kwargs m ''executable_path'' = Some (StrArg path)"
    and "driver m = None"
    and "start_local_fails b (trace w) (driver_kwargs m) = None"
    and "\<forall>tr c. fails b tr (length (alive w)) c = None"
  shows "\<exists>w'. replace_driver b rng (m, w) =
               (Inr (length (alive w)), (m\<lparr>driver := Some (length (alive w))\<rparr>, w')) \<and>
             alive w' = alive w @ [True]"
  using assms
  by (simp add: replace_driver_def and_then_def local_session_def returns_def)

lemma replace_driver_remote_raises:
  assumes "driver_kwargs m ''executable_path'' = Some NoneArg"
    and "command_executor m = Some endpoint"
    and "driver m = None"
  shows "replace_driver b rng (m, w) = (Inl (AttributeError ''_driver_name_options''), (m, w))"
  using assms by (simp add: replace_driver_def and_then_def remote_options_key_def)

text \<open>
  C1. The claim promises a live session for a descriptor with only the remote endpoint
  set. On the code, such a configuration never gets a session: with the driver name
  \<^verbatim>\<open>chrome\<close>, no executable path and the endpoint \<^verbatim>\<open>http://localhost:4444/wd/hub\<close>,
  on a backend where every call would succeed, \<^verbatim>\<open>from_crawler\<close> raises the
  AttributeError of line 104, and no session was started and nothing was logged.
\<close>

theorem from_crawler_remote_endpoint_raises:
  "from_crawler working_backend half remote_settings empty_world =
     (Inl (AttributeError ''_driver_name_options''), empty_world)"
  by (simp add: from_crawler_def init_def new_middleware_def build_options_def remote_settings_def
      local_settings_def working_backend_def replace_driver_def and_then_def remote_options_key_def)

section \<open>Replacing the session\<close>

text \<open>
  C2, as amended. While \<^verbatim>\<open>self.driver\<close> is set, \<^verbatim>\<open>replace_driver\<close> first purges the
  cookies of the old session and quits it, with no guard: an exception of the purge, or of
  the quit, is the outcome of \<^verbatim>\<open>replace_driver\<close>, \<^verbatim>\<open>self.driver\<close> is still the old
  session and no session was started. Only when both calls return does the old session
  count as terminated and the creation of the new one begin.
\<close>

theorem replace_driver_cleanup_unguarded:
  assumes "driver m = Some d"
  shows "replace_driver b rng (m, w) =
    (case fails b (trace w) d DeleteAllCookies of
       Some e \<Rightarrow> (Inl e, (m, w\<lparr>trace := trace w @ [Failed d DeleteAllCookies e]\<rparr>))
     | None \<Rightarrow>
        (case fails b (trace w @ [Call d DeleteAllCookies]) d Quit of
           Some e \<Rightarrow>
             (Inl e, (m, w\<lparr>trace := trace w @ [Call d DeleteAllCookies, Failed d Quit e]\<rparr>))
         | None \<Rightarrow>
             and_then (create_session b rng) (\<lambda>_. install_hook)
               (m, w\<lparr>alive := (alive w)[d := False],
                      trace := trace w @ [Call d DeleteAllCookies, Call d Quit]\<rparr>)))"
  using assms
  by (simp add: replace_driver_def and_then_def returns_def split: option.splits)

theorem replace_driver_cleanup_unguarded_witness:
  "driver local_middleware = Some 0 \<and>
   replace_driver quit_fails half (local_middleware, one_session) =
     (Inl WebDriverException,
      (local_middleware,
       \<lparr>alive = [True], trace = [Call 0 DeleteAllCookies, Failed 0 Quit WebDriverException],
        draws = 0\<rparr>))"
proof -
  have d: "driver local_middleware = Some 0"
    by (simp add: local_middleware_def)
  show ?thesis
    using replace_driver_cleanup_unguarded [OF d, of quit_fails half one_session] d
    by (simp add: quit_fails_def working_backend_def one_session_def)
qed

text \<open>The claim as stated fails: with a running session whose cookie purge raises, and
  likewise with one whose quit raises, \<^verbatim>\<open>replace_driver\<close> raises that exception, the
  only session is still the old one and it is still \<^verbatim>\<open>self.driver\<close>.\<close>

theorem replace_driver_cleanup_counterexample:
  "replace_driver purge_fails half (local_middleware, one_session) =
     (Inl WebDriverException,
      (local_middleware,
       \<lparr>alive = [True], trace = [Failed 0 DeleteAllCookies WebDriverException], draws = 0\<rparr>)) \<and>
   replace_driver quit_fails half (local_middleware, one_session) =
     (Inl WebDriverException,
      (local_middleware,
       \<lparr>alive = [True], trace = [Call 0 DeleteAllCookies, Failed 0 Quit WebDriverException],
        draws = 0\<rparr>))"
  by (simp add: replace_driver_def and_then_def returns_def purge_fails_def quit_fails_def
      working_backend_def local_middleware_def one_session_def)

section \<open>Shutting down\<close>

text \<open>
  C6, as amended. \<^verbatim>\<open>spider_closed\<close> calls \<^verbatim>\<open>quit\<close> on \<^verbatim>\<open>self.driver\<close> with no guard:
  it raises AttributeError when the attribute is missing, it raises what the backend's
  \<^verbatim>\<open>quit\<close> raises, and it returns otherwise. After a first call that returned, the
  session is not alive, \<^verbatim>\<open>self.driver\<close> is unchanged, and a second call sends
  \<^verbatim>\<open>quit\<close> to the same session again: it produces no error exactly when the backend
  accepts a quit of the session it already quit.
\<close>

theorem spider_closed_quits_unguarded:
  "fst (spider_closed b (m, w)) =
     (case driver m of
        None \<Rightarrow> Inl (AttributeError ''driver'')
      | Some d \<Rightarrow> (case fails b (trace w) d Quit of Some e \<Rightarrow> Inl e | None \<Rightarrow> Inr ())) \<and>
   (\<forall>d m1 w1. driver m = Some d \<and> spider_closed b (m, w) = (Inr (), (m1, w1)) \<longrightarrow>
      m1 = m \<and> alive w1 = (alive w)[d := False] \<and> trace w1 = trace w @ [Call d Quit] \<and>
      fst (spider_closed b (m1, w1)) =
        (case fails b (trace w @ [Call d Quit]) d Quit of Some e \<Rightarrow> Inl e | None \<Rightarrow> Inr ()))"
  by (auto simp add: spider_closed_def and_then_def returns_def split: option.splits)

theorem spider_closed_quits_unguarded_witness:
  "driver local_middleware = Some 0 \<and>
   spider_closed working_backend (local_middleware, one_session) =
     (Inr (), (local_middleware, \<lparr>alive = [False], trace = [Call 0 Quit], draws = 0\<rparr>)) \<and>
   fst (spider_closed working_backend
          (local_middleware, \<lparr>alive = [False], trace = [Call 0 Quit], draws = 0\<rparr>)) = Inr ()"
proof -
  have d: "driver local_middleware = Some 0"
    by (simp add: local_middleware_def)
  have first: "spider_closed working_backend (local_middleware, one_session) =
     (Inr (), (local_middleware, \<lparr>alive = [False], trace = [Call 0 Quit], draws = 0\<rparr>))"
    by (simp add: spider_closed_def and_then_def returns_def working_backend_def
        local_middleware_def one_session_def)
  from spider_closed_quits_unguarded [of working_backend local_middleware one_session]
  have "fst (spider_closed working_backend
          (local_middleware, \<lparr>alive = [False], trace = [Call 0 Quit], draws = 0\<rparr>)) =
        (case fails working_backend (trace one_session @ [Call 0 Quit]) 0 Quit of
           Some e \<Rightarrow> Inl e | None \<Rightarrow> Inr ())"
    using d first by blast
  then show ?thesis
    using d first by (simp add: working_backend_def)
qed

text \<open>The claim as stated fails: after a first \<^verbatim>\<open>spider_closed\<close> that returned, the
  second one raises on a backend that refuses to quit a session twice.\<close>

theorem spider_closed_twice_counterexample:
  "spider_closed strict_backend (local_middleware, one_session) =
     (Inr (), (local_middleware, \<lparr>alive = [False], trace = [Call 0 Quit], draws = 0\<rparr>)) \<and>
   spider_closed strict_backend
     (local_middleware, \<lparr>alive = [False], trace = [Call 0 Quit], draws = 0\<rparr>) =
     (Inl WebDriverException,
      (local_middleware,
       \<lparr>alive = [False], trace = [Call 0 Quit, Failed 0 Quit WebDriverException], draws = 0\<rparr>))"
  by (simp add: spider_closed_def and_then_def returns_def strict_backend_def
      working_backend_def local_middleware_def one_session_def)

section \<open>Reasoning about actions\<close>

lemma keepsD: "keeps obs p \<Longrightarrow> p s = (r, s') \<Longrightarrow> obs s' = obs s"
  by (metis keeps_def snd_conv)

lemma keeps_returns: "keeps obs (returns x)"
  by (simp add: keeps_def returns_def)

lemma keeps_and_then:
  assumes "keeps obs p" and "\<And>x. keeps obs (f x)"
  shows "keeps obs (and_then p f)"
  unfolding keeps_def
proof
  fix s
  obtain r s' where ps: "p s = (r, s')" by (cases "p s")
  have s': "obs s' = obs s" using keepsD [OF assms(1) ps] .
  show "obs (snd (and_then p f s)) = obs s"
  proof (cases r)
    case (Inl e)
    with ps s' show ?thesis by (simp add: and_then_def)
  next
    case (Inr x)
    obtain r2 s2 where fs: "f x s' = (r2, s2)" by (cases "f x s'")
    from keepsD [OF assms(2) fs] s' ps Inr fs show ?thesis
      by (simp add: and_then_def)
  qed
qed

lemma keeps_driver_call: "c \<noteq> Quit \<Longrightarrow> keeps session_view (driver_call b c)"
  by (auto simp add: keeps_def session_view_def split: option.splits)

lemma keeps_uniform: "keeps session_view (uniform rng a c)"
  by (simp add: keeps_def session_view_def)

lemma keeps_sleep: "keeps session_view (sleep rng t)"
  by (auto simp add: keeps_def session_view_def split: option.splits)

lemma keeps_pacing: "keeps session_view (pacing rng spider)"
  unfolding keeps_def
proof
  fix s :: state
  have sampled:
    "session_view (snd (and_then (uniform rng a c) (sleep rng) s)) = session_view s" for a c
  proof -
    have "keeps session_view (and_then (uniform rng a c) (sleep rng))"
      by (rule keeps_and_then) (rule keeps_uniform keeps_sleep)+
    then show ?thesis
      unfolding keeps_def by (rule spec)
  qed
  have fixed: "session_view (snd (sleep rng t s)) = session_view s" for t
    using keeps_sleep [of rng t] unfolding keeps_def by (rule spec)
  show "session_view (snd (pacing rng spider s)) = session_view s"
    by (simp add: pacing_def sampled fixed split: sum.splits)
qed

lemma keeps_add_cookies: "keeps session_view (add_cookies b cs)"
  by (induction cs) (auto simp add: keeps_returns keeps_and_then keeps_driver_call)

lemma keeps_wait: "keeps session_view (wait b request)"
  by (simp add: wait_def keeps_and_then keeps_driver_call keeps_returns split: option.splits)

lemma keeps_run_script: "keeps session_view (run_script b request)"
  by (simp add: run_script_def keeps_and_then keeps_driver_call keeps_returns split: option.splits)

lemma keeps_read_page_source: "keeps session_view (read_page_source b)"
  by (auto simp add: keeps_def session_view_def split: option.splits)

lemma keeps_read_current_url: "keeps session_view (read_current_url b)"
  by (auto simp add: keeps_def session_view_def split: option.splits)

lemma keeps_read_screenshot: "keeps session_view (read_screenshot b)"
  by (auto simp add: keeps_def session_view_def split: option.splits)

lemma keeps_on_driver:
  assumes "keeps obs p"
  shows "keeps (\<lambda>ps. obs (snd ps)) (on_driver p)"
  unfolding keeps_def
proof
  fix ps :: pstate
  obtain rq s where ps: "ps = (rq, s)" by (cases ps)
  obtain r s' where run: "p s = (r, s')" by (cases "p s")
  from keepsD [OF assms run] ps run
  show "obs (snd (snd (on_driver p ps))) = obs (snd ps)" by simp
qed

lemma keeps_take_screenshot: "keeps (\<lambda>ps. session_view (snd ps)) (take_screenshot b)"
  unfolding keeps_def
proof
  fix ps :: pstate
  obtain rq s where ps: "ps = (rq, s)" by (cases ps)
  obtain r s' where run: "read_screenshot b s = (r, s')" by (cases "read_screenshot b s")
  from keepsD [OF keeps_read_screenshot run] ps run
  show "session_view (snd (snd (take_screenshot b ps))) = session_view (snd ps)"
    by (cases r) simp_all
qed

lemma keeps_expose_driver: "keeps (\<lambda>ps. session_view (snd ps)) expose_driver"
  by (auto simp add: keeps_def split: option.splits)

lemma keeps_encode: "keeps obs (encode text)"
  by (simp add: keeps_def encode_def)

lemma keeps_html_response: "keeps obs (html_response u bs)"
  by (auto simp add: keeps_def)

lemma process_request_keeps_sessions:
  "process_request b rng request spider s = (r, (rq', s')) \<Longrightarrow> session_view s' = session_view s"
proof -
  assume run: "process_request b rng request spider s = (r, (rq', s'))"
  show ?thesis
  proof (cases "is_selenium_request request")
    case False
    with run show ?thesis by (simp add: process_request_def)
  next
    case True
    let ?body = "and_then (on_driver (pacing rng spider)) (\<lambda>_.
        and_then (on_driver (add_cookies b (cookies request))) (\<lambda>_.
        and_then (on_driver (driver_call b (Get (url request)))) (\<lambda>_.
        and_then (on_driver (wait b request)) (\<lambda>_.
        and_then (take_screenshot b) (\<lambda>_.
        and_then (on_driver (run_script b request)) (\<lambda>_.
        and_then (on_driver (read_page_source b)) (\<lambda>page_source.
        and_then (encode page_source) (\<lambda>page_bytes.
        and_then expose_driver (\<lambda>_.
        and_then (on_driver (read_current_url b)) (\<lambda>current_url.
        html_response current_url page_bytes))))))))))"
    have k: "keeps (\<lambda>ps. session_view (snd ps)) ?body"
      by (intro keeps_and_then keeps_on_driver keeps_pacing keeps_add_cookies keeps_driver_call
          keeps_wait keeps_take_screenshot keeps_run_script keeps_read_page_source keeps_encode
          keeps_expose_driver keeps_read_current_url keeps_html_response) simp
    from run True have "?body (request, s) = (r, (rq', s'))"
      by (simp add: process_request_def)
    from keepsD [OF k this] show ?thesis by simp
  qed
qed

lemma driver_call_Inr:
  assumes "driver_call b c (m, w) = (Inr d, s')"
  shows "driver m = Some d \<and> fails b (trace w) d c = None \<and>
         s' = (m, w\<lparr>alive := (if c = Quit then (alive w)[d := False] else alive w),
                     trace := trace w @ [Call d c]\<rparr>)"
  using assms by (auto split: option.splits)

lemma process_request_finish:
  "is_selenium_request request \<Longrightarrow>
     process_request b rng request spider s =
       and_then (on_driver (pacing rng spider)) (\<lambda>_.
       and_then (on_driver (add_cookies b (cookies request))) (\<lambda>_.
       and_then (on_driver (driver_call b (Get (url request)))) (\<lambda>_.
       finish b request))) (request, s)"
  by (simp add: process_request_def finish_def)

lemma appendsD:
  "appends lg P p \<Longrightarrow> p s = (r, s') \<Longrightarrow> \<exists>new. lg s' = lg s @ new \<and> list_all P new"
  by (metis appends_def snd_conv)

lemma appends_returns: "appends lg P (returns x)"
  by (simp add: appends_def returns_def)


lemma appends_and_then:
  assumes "appends lg P p" and "\<And>x. appends lg P (f x)"
  shows "appends lg P (and_then p f)"
  unfolding appends_def
proof
  fix s
  obtain r s' where ps: "p s = (r, s')" by (cases "p s")
  from appendsD [OF assms(1) ps] obtain new1
    where n1: "lg s' = lg s @ new1" "list_all P new1" by blast
  show "\<exists>new. lg (snd (and_then p f s)) = lg s @ new \<and> list_all P new"
  proof (cases r)
    case (Inl e)
    with ps n1 show ?thesis by (auto simp add: and_then_def)
  next
    case (Inr x)
    obtain r2 s2 where fs: "f x s' = (r2, s2)" by (cases "f x s'")
    from appendsD [OF assms(2) fs] obtain new2
      where n2: "lg s2 = lg s' @ new2" "list_all P new2" by blast
    from n1 n2 have "lg s2 = lg s @ (new1 @ new2)" "list_all P (new1 @ new2)"
      by simp_all
    with ps Inr fs show ?thesis
      by (auto simp add: and_then_def)
  qed
qed

lemma appends_driver_call:
  assumes "\<And>d. P (Call d c)" and "\<And>d e. P (Failed d c e)"
  shows "appends slog P (driver_call b c)"
  unfolding appends_def
proof
  fix s :: state
  obtain m w where s: "s = (m, w)" by (cases s)
  show "\<exists>new. slog (snd (driver_call b c s)) = slog s @ new \<and> list_all P new"
    using assms s by (auto simp add: slog_def split: option.splits)
qed

lemma appends_on_driver:
  assumes "appends slog P p"
  shows "appends plog P (on_driver p)"
  unfolding appends_def
proof
  fix ps :: pstate
  obtain rq s where ps: "ps = (rq, s)" by (cases ps)
  obtain r s' where run: "p s = (r, s')" by (cases "p s")
  from appendsD [OF assms run] ps run
  show "\<exists>new. plog (snd (on_driver p ps)) = plog ps @ new \<and> list_all P new"
    by (simp add: plog_def slog_def)
qed


lemma appends_wait: "appends slog after_navigation (wait b request)"
  by (simp add: wait_def appends_and_then appends_driver_call appends_returns
      after_navigation_def split: option.splits)

lemma appends_run_script: "appends slog after_navigation (run_script b request)"
  by (simp add: run_script_def appends_and_then appends_driver_call appends_returns
      after_navigation_def split: option.splits)

lemma appends_read_page_source: "appends slog after_navigation (read_page_source b)"
  unfolding appends_def
proof
  fix s :: state
  obtain m w where s: "s = (m, w)" by (cases s)
  show "\<exists>new. slog (snd (read_page_source b s)) = slog s @ new \<and> list_all after_navigation new"
    using s by (auto simp add: slog_def after_navigation_def split: option.splits)
qed

lemma appends_read_current_url: "appends slog after_navigation (read_current_url b)"
  unfolding appends_def
proof
  fix s :: state
  obtain m w where s: "s = (m, w)" by (cases s)
  show "\<exists>new. slog (snd (read_current_url b s)) = slog s @ new \<and> list_all after_navigation new"
    using s by (auto simp add: slog_def after_navigation_def split: option.splits)
qed

lemma appends_take_screenshot: "appends plog after_navigation (take_screenshot b)"
  unfolding appends_def
proof
  fix ps :: pstate
  obtain rq m w where ps: "ps = (rq, (m, w))" by (cases ps) auto
  show "\<exists>new. plog (snd (take_screenshot b ps)) = plog ps @ new \<and> list_all after_navigation new"
    using ps by (auto simp add: plog_def after_navigation_def split: option.splits)
qed

lemma appends_expose_driver: "appends plog P expose_driver"
  unfolding appends_def
proof
  fix ps :: pstate
  obtain rq m w where ps: "ps = (rq, (m, w))" by (cases ps) auto
  show "\<exists>new. plog (snd (expose_driver ps)) = plog ps @ new \<and> list_all P new"
    using ps by (auto simp add: plog_def split: option.splits)
qed

lemma appends_encode: "appends lg P (encode text)"
  by (simp add: appends_def encode_def)

lemma appends_html_response: "appends plog P (html_response u bs)"
  by (auto simp add: appends_def plog_def)

lemma appends_finish: "appends plog after_navigation (finish b request)"
  unfolding finish_def
  by (intro appends_and_then appends_on_driver appends_wait appends_take_screenshot
      appends_run_script appends_read_page_source appends_encode appends_expose_driver
      appends_read_current_url appends_html_response)





lemma add_cookies_all_added:
  assumes "driver m = Some d" and "\<forall>tr n v. fails b tr d (AddCookie n v) = None"
  shows "add_cookies b cs (m, w) =
           (Inr (), (m, w\<lparr>trace := trace w @ map (\<lambda>(n, v). Call d (AddCookie n v)) cs\<rparr>))"
  using assms
proof (induction cs arbitrary: w)
  case Nil
  then show ?case by (simp add: returns_def)
next
  case (Cons c cs)
  obtain n v where c: "c = (n, v)" by (cases c)
  from Cons.prems have first: "driver_call b (AddCookie n v) (m, w) =
      (Inr d, (m, w\<lparr>trace := trace w @ [Call d (AddCookie n v)]\<rparr>))"
    by simp
  from Cons.IH [OF Cons.prems, of "w\<lparr>trace := trace w @ [Call d (AddCookie n v)]\<rparr>"] first c
  show ?case by (simp add: and_then_def)
qed

lemma take_screenshot_Inr:
  assumes "take_screenshot b (rq, (m, w)) = (Inr u, (rq2, s2))"
  shows "fst s2 = m \<and>
         (if screenshot rq
          then \<exists>png. rq2 = rq\<lparr>meta := (meta rq)(''screenshot'' \<mapsto> MBytes png)\<rparr>
          else rq2 = rq)"
  using assms by (auto split: if_splits option.splits)

lemma read_page_source_Inr:
  assumes "read_page_source b (m, w) = (Inr src, s')"
  shows "\<exists>d. driver m = Some d \<and> src = page_source_of b (trace w) d \<and>
             s' = (m, w\<lparr>trace := trace w @ [Call d PageSource]\<rparr>)"
  using assms by (auto split: option.splits)

lemma read_current_url_Inr:
  assumes "read_current_url b (m, w) = (Inr u, s')"
  shows "\<exists>d. driver m = Some d \<and> u = current_url_of b (trace w) d \<and>
             s' = (m, w\<lparr>trace := trace w @ [Call d CurrentUrl]\<rparr>)"
  using assms by (auto split: option.splits)

lemma expose_driver_Inr:
  assumes "expose_driver (rq, (m, w)) = (Inr u, ps')"
  shows "\<exists>d. driver m = Some d \<and>
             ps' = (rq\<lparr>meta := (meta rq)(''driver'' \<mapsto> MDriver d)\<rparr>, (m, w))"
  using assms by (auto split: option.splits)

lemma and_then_InrE:
  assumes "and_then p f s = (Inr y, t)"
  obtains x s' where "p s = (Inr x, s')" and "f x s' = (Inr y, t)"
  using assms by (auto simp add: and_then_def split: prod.splits sum.splits)

lemma on_driver_InrD:
  assumes "on_driver p (rq, s) = (Inr x, ps')"
  obtains s' where "p s = (Inr x, s')" and "ps' = (rq, s')"
  using assms by (auto split: prod.splits)

lemma finish_Inr:
  assumes run: "finish b request (rq, (m, w)) = (Inr ro, (rq', (m', w')))"
  shows "\<exists>d tr bs rq2.
           driver m = Some d \<and> m' = m \<and>
           trace w' = tr @ [Call d PageSource, Call d CurrentUrl] \<and>
           str_encode (page_source_of b tr d) = Inr bs \<and>
           ro = Some \<lparr>response_url = current_url_of b (tr @ [Call d PageSource]) d,
                      body = bs, encoding = ''utf-8'', response_request = rq'\<rparr> \<and>
           (if screenshot rq
            then \<exists>png. rq2 = rq\<lparr>meta := (meta rq)(''screenshot'' \<mapsto> MBytes png)\<rparr>
            else rq2 = rq) \<and>
           rq' = rq2\<lparr>meta := (meta rq2)(''driver'' \<mapsto> MDriver d)\<rparr>"
proof -
  from run [unfolded finish_def] obtain u1 ps1 where
      a1: "on_driver (wait b request) (rq, (m, w)) = (Inr u1, ps1)"
    and r1: "and_then (take_screenshot b) (\<lambda>_.
        and_then (on_driver (run_script b request)) (\<lambda>_.
        and_then (on_driver (read_page_source b)) (\<lambda>page_source.
        and_then (encode page_source) (\<lambda>page_bytes.
        and_then expose_driver (\<lambda>_.
        and_then (on_driver (read_current_url b)) (\<lambda>current_url.
        html_response current_url page_bytes)))))) ps1 = (Inr ro, (rq', (m', w')))"
    by (rule and_then_InrE)
  from a1 obtain s1 where waited: "wait b request (m, w) = (Inr u1, s1)"
    and ps1: "ps1 = (rq, s1)"
    by (rule on_driver_InrD)
  obtain m1 w1 where s1: "s1 = (m1, w1)" by (cases s1)
  from keepsD [OF keeps_wait waited] s1 have m1: "m1 = m"
    by (simp add: session_view_def)
  from r1 obtain u2 ps2 where
      shot: "take_screenshot b ps1 = (Inr u2, ps2)"
    and r2: "and_then (on_driver (run_script b request)) (\<lambda>_.
        and_then (on_driver (read_page_source b)) (\<lambda>page_source.
        and_then (encode page_source) (\<lambda>page_bytes.
        and_then expose_driver (\<lambda>_.
        and_then (on_driver (read_current_url b)) (\<lambda>current_url.
        html_response current_url page_bytes))))) ps2 = (Inr ro, (rq', (m', w')))"
    by (rule and_then_InrE)
  obtain rq2 m2 w2 where ps2: "ps2 = (rq2, (m2, w2))" by (cases ps2) auto
  from take_screenshot_Inr [OF shot [unfolded ps1 s1 m1 ps2]] have m2: "m2 = m"
    and rq2: "if screenshot rq
          then \<exists>png. rq2 = rq\<lparr>meta := (meta rq)(''screenshot'' \<mapsto> MBytes png)\<rparr>
          else rq2 = rq"
    by simp_all
  from r2 obtain u3 ps3 where
      a3: "on_driver (run_script b request) ps2 = (Inr u3, ps3)"
    and r3: "and_then (on_driver (read_page_source b)) (\<lambda>page_source.
        and_then (encode page_source) (\<lambda>page_bytes.
        and_then expose_driver (\<lambda>_.
        and_then (on_driver (read_current_url b)) (\<lambda>current_url.
        html_response current_url page_bytes)))) ps3 = (Inr ro, (rq', (m', w')))"
    by (rule and_then_InrE)
  from a3 [unfolded ps2 m2] obtain s3 where
      scripted: "run_script b request (m, w2) = (Inr u3, s3)" and ps3: "ps3 = (rq2, s3)"
    by (rule on_driver_InrD)
  obtain m3 w3 where s3: "s3 = (m3, w3)" by (cases s3)
  from keepsD [OF keeps_run_script scripted] s3 have m3: "m3 = m"
    by (simp add: session_view_def)
  from r3 obtain src ps4 where
      a4: "on_driver (read_page_source b) ps3 = (Inr src, ps4)"
    and r4: "and_then (encode src) (\<lambda>page_bytes.
        and_then expose_driver (\<lambda>_.
        and_then (on_driver (read_current_url b)) (\<lambda>current_url.
        html_response current_url page_bytes))) ps4 = (Inr ro, (rq', (m', w')))"
    by (rule and_then_InrE)
  from a4 [unfolded ps3 s3 m3] obtain s4 where
      source: "read_page_source b (m, w3) = (Inr src, s4)" and ps4: "ps4 = (rq2, s4)"
    by (rule on_driver_InrD)
  from read_page_source_Inr [OF source] obtain d where
      d: "driver m = Some d" and src: "src = page_source_of b (trace w3) d"
    and s4: "s4 = (m, w3\<lparr>trace := trace w3 @ [Call d PageSource]\<rparr>)"
    by blast
  let ?w4 = "w3\<lparr>trace := trace w3 @ [Call d PageSource]\<rparr>"
  from r4 obtain bs ps5 where
      a5: "encode src ps4 = (Inr bs, ps5)"
    and r5: "and_then expose_driver (\<lambda>_.
        and_then (on_driver (read_current_url b)) (\<lambda>current_url.
        html_response current_url bs)) ps5 = (Inr ro, (rq', (m', w')))"
    by (rule and_then_InrE)
  from a5 have encoded: "str_encode src = Inr bs" and ps5: "ps5 = (rq2, (m, ?w4))"
    by (simp_all add: encode_def ps4 s4)
  let ?rq3 = "rq2\<lparr>meta := (meta rq2)(''driver'' \<mapsto> MDriver d)\<rparr>"
  from r5 d have r6: "and_then (on_driver (read_current_url b)) (\<lambda>current_url.
        html_response current_url bs) (?rq3, (m, ?w4)) = (Inr ro, (rq', (m', w')))"
    by (simp add: and_then_def ps5)
  from r6 d have final:
    "ro = Some \<lparr>response_url = current_url_of b (trace ?w4) d, body = bs,
                encoding = ''utf-8'', response_request = ?rq3\<rparr>"
    "rq' = ?rq3" "m' = m" "w' = ?w4\<lparr>trace := trace ?w4 @ [Call d CurrentUrl]\<rparr>"
    by (auto simp add: and_then_def split: option.splits)
  from final d encoded src rq2 show ?thesis
    by (intro exI [of _ d] exI [of _ "trace w3"] exI [of _ bs] exI [of _ rq2]) simp
qed

lemma process_request_reaches_finish:
  assumes run: "process_request b rng request spider (m, w) = (Inr (Some resp), (rq', (m', w')))"
  shows "is_selenium_request request \<and>
         (\<exists>w3. finish b request (request, (m, w3)) = (Inr (Some resp), (rq', (m', w'))))"
proof -
  have marked: "is_selenium_request request"
  proof (rule ccontr)
    assume "\<not> is_selenium_request request"
    with run show False by (simp add: process_request_def)
  qed
  from run [unfolded process_request_finish [OF marked]] obtain u1 ps1 where
      a1: "on_driver (pacing rng spider) (request, (m, w)) = (Inr u1, ps1)"
    and r1: "and_then (on_driver (add_cookies b (cookies request))) (\<lambda>_.
       and_then (on_driver (driver_call b (Get (url request)))) (\<lambda>_.
       finish b request)) ps1 = (Inr (Some resp), (rq', (m', w')))"
    by (rule and_then_InrE)
  from a1 obtain s1 where paced: "pacing rng spider (m, w) = (Inr u1, s1)"
    and ps1: "ps1 = (request, s1)"
    by (rule on_driver_InrD)
  from r1 [unfolded ps1] obtain u2 ps2 where
      a2: "on_driver (add_cookies b (cookies request)) (request, s1) = (Inr u2, ps2)"
    and r2: "and_then (on_driver (driver_call b (Get (url request)))) (\<lambda>_.
       finish b request) ps2 = (Inr (Some resp), (rq', (m', w')))"
    by (rule and_then_InrE)
  from a2 obtain s2 where added: "add_cookies b (cookies request) s1 = (Inr u2, s2)"
    and ps2: "ps2 = (request, s2)"
    by (rule on_driver_InrD)
  from r2 [unfolded ps2] obtain u3 ps3 where
      a3: "on_driver (driver_call b (Get (url request))) (request, s2) = (Inr u3, ps3)"
    and r3: "finish b request ps3 = (Inr (Some resp), (rq', (m', w')))"
    by (rule and_then_InrE)
  from a3 obtain s3 where loaded: "driver_call b (Get (url request)) s2 = (Inr u3, s3)"
    and ps3: "ps3 = (request, s3)"
    by (rule on_driver_InrD)
  have "session_view s3 = session_view (m, w)"
    using keepsD [OF keeps_pacing paced] keepsD [OF keeps_add_cookies added]
      keepsD [OF keeps_driver_call loaded]
    by simp
  then have "s3 = (m, snd s3)"
    by (cases s3) (simp add: session_view_def)
  with r3 ps3 have "finish b request (request, (m, snd s3)) = (Inr (Some resp), (rq', (m', w')))"
    by simp
  with marked show ?thesis by blast
qed

text \<open>The concrete fetches, evaluated.\<close>

lemmas run_defs = process_request_def and_then_def returns_def pacing_def getint_def getbool_def
  sleep_error_def float_limit_def wait_def run_script_def
  encode_def encode_code_point_def working_backend_def local_middleware_def one_session_def
  browser_request_def local_settings_def half_def

lemma browser_request_fetched:
  "process_request working_backend half browser_request local_settings
     (local_middleware, one_session) =
   (Inr (Some fetched_response),
    (fetched_request, (local_middleware, \<lparr>alive = [True], trace = fetch_events, draws = 0\<rparr>)))"
  by (simp add: run_defs fetched_request_def fetch_events_def fetched_response_def)



section \<open>A wait condition that is not met\<close>

text \<open>
  C5. A browser-fetch request carries a wait condition, the steps before the wait (pacing,
  cookies, navigation) went through, and the condition is not met within
  \<^verbatim>\<open>wait_time\<close>, so that \<^verbatim>\<open>WebDriverWait(...).until(...)\<close> raises TimeoutException. Then
  \<^verbatim>\<open>process_request\<close> raises TimeoutException, and afterwards the middleware object still
  holds the same driver and every liveness flag is what it was before the call: the
  session is neither quit nor replaced.
\<close>

theorem wait_timeout_keeps_session:
  assumes marked: "is_selenium_request request"
    and cond: "wait_until request = Some condition"
    and paced: "pacing rng spider (m, w) = (Inr (), s1)"
    and cookies_added: "add_cookies b (cookies request) s1 = (Inr (), s2)"
    and loaded: "driver_call b (Get (url request)) s2 = (Inr d, (m3, w3))"
    and unmet: "fails b (trace w3) d (Until condition (wait_time request)) = Some TimeoutException"
  shows "process_request b rng request spider (m, w) =
           (Inl TimeoutException,
            (request,
             (m, w3\<lparr>trace := trace w3 @
                 [Failed d (Until condition (wait_time request)) TimeoutException]\<rparr>))) \<and>
         alive w3 = alive w \<and> driver m = Some d"
proof -
  have v1: "session_view s1 = session_view (m, w)"
    using keepsD [OF keeps_pacing paced] .
  have v2: "session_view s2 = session_view s1"
    using keepsD [OF keeps_add_cookies cookies_added] .
  have v3: "session_view (m3, w3) = session_view s2"
    using keepsD [OF keeps_driver_call loaded] by simp
  from v1 v2 v3 have same: "m3 = m" "alive w3 = alive w"
    by (simp_all add: session_view_def)
  obtain m2 w2 where s2: "s2 = (m2, w2)" by (cases s2)
  from driver_call_Inr [OF loaded [unfolded s2]] v3 s2 same have drv: "driver m = Some d"
    by (simp add: session_view_def)
  have timed_out: "wait b request (m, w3) =
      (Inl TimeoutException,
       (m, w3\<lparr>trace := trace w3 @
           [Failed d (Until condition (wait_time request)) TimeoutException]\<rparr>))"
    using cond drv unmet by (simp add: wait_def and_then_def)
  have "process_request b rng request spider (m, w) =
          (Inl TimeoutException,
            (request,
             (m, w3\<lparr>trace := trace w3 @
                 [Failed d (Until condition (wait_time request)) TimeoutException]\<rparr>)))"
    using marked paced cookies_added loaded timed_out same
    by (simp add: process_request_def and_then_def)
  with same drv show ?thesis by simp
qed

theorem wait_timeout_keeps_session_witness:
  "is_selenium_request browser_request \<and> wait_until browser_request = Some ''title_is'' \<and>
   process_request never_met half browser_request local_settings
     (local_middleware, one_session) =
     (Inl TimeoutException,
      (browser_request,
       (local_middleware,
        \<lparr>alive = [True],
         trace = [Call 0 (AddCookie ''a'' ''1''), Call 0 (AddCookie ''b'' ''2''),
                  Call 0 (Get ''http://example.test''),
                  Failed 0 (Until ''title_is'' 2) TimeoutException],
         draws = 0\<rparr>))) \<and>
   alive one_session = [True] \<and> driver local_middleware = Some 0"
proof -
  let ?w2 = "\<lparr>alive = [True],
              trace = [Call 0 (AddCookie ''a'' ''1''), Call 0 (AddCookie ''b'' ''2'')],
              draws = 0\<rparr>"
  let ?w3 = "\<lparr>alive = [True],
              trace = [Call 0 (AddCookie ''a'' ''1''), Call 0 (AddCookie ''b'' ''2''),
                       Call 0 (Get ''http://example.test'')],
              draws = 0\<rparr>"
  have marked: "is_selenium_request browser_request"
    by (simp add: browser_request_def)
  have cond: "wait_until browser_request = Some ''title_is''"
    by (simp add: browser_request_def)
  have paced: "pacing half local_settings (local_middleware, one_session) =
      (Inr (), (local_middleware, one_session))"
    by (simp add: pacing_def getint_def getbool_def local_settings_def)
  have added: "add_cookies never_met (cookies browser_request) (local_middleware, one_session) =
      (Inr (), (local_middleware, ?w2))"
    by (simp add: browser_request_def never_met_def working_backend_def local_middleware_def
        one_session_def and_then_def returns_def)
  have loaded: "driver_call never_met (Get (url browser_request)) (local_middleware, ?w2) =
      (Inr 0, (local_middleware, ?w3))"
    by (simp add: browser_request_def never_met_def working_backend_def local_middleware_def)
  have unmet: "fails never_met (trace ?w3) 0 (Until ''title_is'' (wait_time browser_request)) =
      Some TimeoutException"
    by (simp add: never_met_def working_backend_def)
  from wait_timeout_keeps_session [OF marked cond paced added loaded unmet] marked cond
  show ?thesis
    by (simp add: browser_request_def one_session_def)
qed

section \<open>Pacing\<close>














section \<open>Cookies before navigation\<close>

text \<open>
  C8. For a browser-fetch request whose pacing went through and whose cookie additions
  the session accepts, what \<^verbatim>\<open>process_request\<close> does after the pacing is: one
  \<^verbatim>\<open>add_cookie\<close> for every (name, value) item of \<^verbatim>\<open>request.cookies\<close>, in the order of
  the items and none left out or merged; then the navigation to \<^verbatim>\<open>request.url\<close> (which
  may return or raise); and after it no further cookie addition and no further navigation.
\<close>

theorem cookies_before_navigation:
  assumes marked: "is_selenium_request request"
    and drv: "driver m = Some d"
    and paced: "pacing rng spider (m, w) = (Inr (), s1)"
    and accepted: "\<forall>tr n v. fails b tr d (AddCookie n v) = None"
    and run: "process_request b rng request spider (m, w) = (r, (rq', (m', w')))"
  shows "\<exists>nav new.
           trace w' = trace (snd s1) @
             map (\<lambda>(n, v). Call d (AddCookie n v)) (cookies request) @ nav # new \<and>
           (nav = Call d (Get (url request)) \<or> (\<exists>e. nav = Failed d (Get (url request)) e)) \<and>
           list_all after_navigation new"
proof -
  obtain m1 w1 where s1: "s1 = (m1, w1)" by (cases s1)
  from keepsD [OF keeps_pacing paced] s1 have m1: "m1 = m"
    by (simp add: session_view_def)
  let ?w2 = "w1\<lparr>trace := trace w1 @ map (\<lambda>(n, v). Call d (AddCookie n v)) (cookies request)\<rparr>"
  have added: "add_cookies b (cookies request) (m, w1) = (Inr (), (m, ?w2))"
    using add_cookies_all_added [OF drv accepted] .
  show ?thesis
  proof (cases "fails b (trace ?w2) d (Get (url request))")
    case (Some e)
    then have "driver_call b (Get (url request)) (m, ?w2) =
        (Inl e, (m, ?w2\<lparr>trace := trace ?w2 @ [Failed d (Get (url request)) e]\<rparr>))"
      using drv by simp
    with run marked paced added s1 m1
    have "trace w' = trace ?w2 @ [Failed d (Get (url request)) e]"
      by (auto simp add: process_request_finish and_then_def)
    then show ?thesis using s1 by simp
  next
    case None
    then have "driver_call b (Get (url request)) (m, ?w2) =
        (Inr d, (m, ?w2\<lparr>trace := trace ?w2 @ [Call d (Get (url request))]\<rparr>))"
      using drv by simp
    with run marked paced added s1 m1
    have "finish b request
            (request, (m, ?w2\<lparr>trace := trace ?w2 @ [Call d (Get (url request))]\<rparr>)) =
          (r, (rq', (m', w')))"
      by (simp add: process_request_finish and_then_def)
    from appendsD [OF appends_finish this] s1 show ?thesis
      by (auto simp add: plog_def)
  qed
qed

theorem cookies_before_navigation_witness:
  "is_selenium_request browser_request \<and> driver local_middleware = Some 0 \<and>
   pacing half local_settings (local_middleware, one_session) =
     (Inr (), (local_middleware, one_session)) \<and>
   (\<forall>tr n v. fails working_backend tr 0 (AddCookie n v) = None) \<and>
   (\<exists>nav new.
      fetch_events =
        trace one_session @
        map (\<lambda>(n, v). Call 0 (AddCookie n v)) [(''a'', ''1''), (''b'', ''2'')] @ nav # new \<and>
      nav = Call 0 (Get ''http://example.test'') \<and> list_all after_navigation new)"
proof -
  have marked: "is_selenium_request browser_request"
    by (simp add: browser_request_def)
  have drv: "driver local_middleware = Some 0"
    by (simp add: local_middleware_def)
  have paced: "pacing half local_settings (local_middleware, one_session) =
      (Inr (), (local_middleware, one_session))"
    by (simp add: pacing_def getint_def getbool_def local_settings_def)
  have accepted: "\<forall>tr n v. fails working_backend tr 0 (AddCookie n v) = None"
    by (simp add: working_backend_def)
  from cookies_before_navigation [OF marked drv paced accepted browser_request_fetched]
  have "\<exists>nav new.
      fetch_events =
        trace one_session @
        map (\<lambda>(n, v). Call 0 (AddCookie n v)) [(''a'', ''1''), (''b'', ''2'')] @ nav # new \<and>
      nav = Call 0 (Get ''http://example.test'') \<and> list_all after_navigation new"
    by (auto simp add: browser_request_def one_session_def fetch_events_def)
  with marked drv paced accepted show ?thesis
    by blast
qed

section \<open>The response\<close>

text \<open>
  C9. When \<^verbatim>\<open>process_request\<close> returns a response, the last two things it did were to
  read \<^verbatim>\<open>page_source\<close> and then \<^verbatim>\<open>current_url\<close> from the session, after all other
  steps. The url of the response is the url the session reported at that last read (the
  loaded, possibly redirected one, not the one requested), the body is the UTF-8 encoding
  of the markup the session reported, and the declared encoding is \<^verbatim>\<open>utf-8\<close>.
\<close>

theorem response_from_session:
  assumes run: "process_request b rng request spider (m, w) = (Inr (Some resp), (rq', (m', w')))"
  shows "\<exists>d tr. driver m = Some d \<and>
           trace w' = tr @ [Call d PageSource, Call d CurrentUrl] \<and>
           response_url resp = current_url_of b (tr @ [Call d PageSource]) d \<and>
           str_encode (page_source_of b tr d) = Inr (body resp) \<and>
           encoding resp = ''utf-8''"
proof -
  from process_request_reaches_finish [OF run] obtain w3 where
    "finish b request (request, (m, w3)) = (Inr (Some resp), (rq', (m', w')))"
    by blast
  from finish_Inr [OF this] obtain d tr bs where
      "driver m = Some d" "trace w' = tr @ [Call d PageSource, Call d CurrentUrl]"
      "str_encode (page_source_of b tr d) = Inr bs"
      "Some resp = Some \<lparr>response_url = current_url_of b (tr @ [Call d PageSource]) d,
                      body = bs, encoding = ''utf-8'', response_request = rq'\<rparr>"
    by blast
  then show ?thesis by auto
qed

theorem response_from_session_witness:
  "process_request working_backend half browser_request local_settings
     (local_middleware, one_session) =
   (Inr (Some fetched_response),
    (fetched_request, (local_middleware, \<lparr>alive = [True], trace = fetch_events, draws = 0\<rparr>))) \<and>
   response_url fetched_response = ''http://example.test/'' \<and>
   body fetched_response = [104, 195, 169] \<and>
   (\<exists>d tr. driver local_middleware = Some d \<and>
      fetch_events = tr @ [Call d PageSource, Call d CurrentUrl] \<and>
      response_url fetched_response = current_url_of working_backend (tr @ [Call d PageSource]) d \<and>
      str_encode (page_source_of working_backend tr d) = Inr (body fetched_response) \<and>
      encoding fetched_response = ''utf-8'')"
  using response_from_session [OF browser_request_fetched] browser_request_fetched
  by (simp add: fetched_response_def)

section \<open>What happens to the request object\<close>

text \<open>
  C10. When \<^verbatim>\<open>process_request\<close> returns a response, the request object it was given
  (which the response refers to) differs from what it was only in its metadata map: the
  marker, \<open>url\<close>, \<open>cookies\<close>, the wait condition and its timeout, the screenshot flag and the
  script are unchanged. In the metadata, \<^verbatim>\<open>'driver'\<close> now holds the session,
  \<^verbatim>\<open>'screenshot'\<close> holds image bytes when a screenshot was requested and is untouched
  otherwise, and every other key is untouched.
\<close>

theorem request_only_meta_changes:
  assumes run: "process_request b rng request spider (m, w) = (Inr (Some resp), (rq', (m', w')))"
  shows "response_request resp = rq' \<and>
         is_selenium_request rq' = is_selenium_request request \<and>
         url rq' = url request \<and> cookies rq' = cookies request \<and>
         wait_until rq' = wait_until request \<and> wait_time rq' = wait_time request \<and>
         screenshot rq' = screenshot request \<and> script rq' = script request \<and>
         rq' = request\<lparr>meta := meta rq'\<rparr> \<and>
         (\<exists>d. driver m = Some d \<and> meta rq' ''driver'' = Some (MDriver d)) \<and>
         (if screenshot request
          then \<exists>png. meta rq' ''screenshot'' = Some (MBytes png)
          else meta rq' ''screenshot'' = meta request ''screenshot'') \<and>
         (\<forall>k. k \<noteq> ''driver'' \<and> k \<noteq> ''screenshot'' \<longrightarrow> meta rq' k = meta request k)"
proof -
  from process_request_reaches_finish [OF run] obtain w3 where
    "finish b request (request, (m, w3)) = (Inr (Some resp), (rq', (m', w')))"
    by blast
  from finish_Inr [OF this] obtain d tr bs rq2 where
      d: "driver m = Some d"
    and resp: "Some resp = Some \<lparr>response_url = current_url_of b (tr @ [Call d PageSource]) d,
                      body = bs, encoding = ''utf-8'', response_request = rq'\<rparr>"
    and rq2: "if screenshot request
            then \<exists>png. rq2 = request\<lparr>meta := (meta request)(''screenshot'' \<mapsto> MBytes png)\<rparr>
            else rq2 = request"
    and rq': "rq' = rq2\<lparr>meta := (meta rq2)(''driver'' \<mapsto> MDriver d)\<rparr>"
    by blast
  from resp have "response_request resp = rq'" by auto
  moreover from rq2 rq' d have
    "is_selenium_request rq' = is_selenium_request request \<and>
         url rq' = url request \<and> cookies rq' = cookies request \<and>
         wait_until rq' = wait_until request \<and> wait_time rq' = wait_time request \<and>
         screenshot rq' = screenshot request \<and> script rq' = script request \<and>
         rq' = request\<lparr>meta := meta rq'\<rparr> \<and>
         (\<exists>d. driver m = Some d \<and> meta rq' ''driver'' = Some (MDriver d)) \<and>
         (if screenshot request
          then \<exists>png. meta rq' ''screenshot'' = Some (MBytes png)
          else meta rq' ''screenshot'' = meta request ''screenshot'') \<and>
         (\<forall>k. k \<noteq> ''driver'' \<and> k \<noteq> ''screenshot'' \<longrightarrow> meta rq' k = meta request k)"
    by (cases "screenshot request") auto
  ultimately show ?thesis by simp
qed

theorem request_only_meta_changes_witness:
  "process_request working_backend half browser_request local_settings
     (local_middleware, one_session) =
   (Inr (Some fetched_response),
    (fetched_request, (local_middleware, \<lparr>alive = [True], trace = fetch_events, draws = 0\<rparr>))) \<and>
   response_request fetched_response = fetched_request \<and>
   url fetched_request = url browser_request \<and>
   cookies fetched_request = cookies browser_request \<and>
   fetched_request = browser_request\<lparr>meta := meta fetched_request\<rparr> \<and>
   meta fetched_request ''driver'' = Some (MDriver 0) \<and>
   meta fetched_request ''screenshot'' = Some (MBytes [137]) \<and>
   meta fetched_request ''depth'' = meta browser_request ''depth''"
  using request_only_meta_changes [OF browser_request_fetched] browser_request_fetched
  by (simp add: fetched_request_def browser_request_def local_middleware_def)

section \<open>At most one session\<close>

lemma none_alive_inv: "none_alive v \<Longrightarrow> manager_inv v"
  by (simp add: none_alive_def manager_inv_def)

lemma quit_none_alive:
  assumes inv: "manager_inv (m, xs)" and drv: "driver m = Some d"
  shows "none_alive (m, xs[d := False])"
proof -
  have range: "d < length xs"
    using inv drv by (simp add: manager_inv_def)
  have dead: "\<not> xs[d := False] ! i" if "i < length xs" for i
  proof (cases "i = d")
    case True
    with that show ?thesis by simp
  next
    case False
    show ?thesis
    proof
      assume "xs[d := False] ! i"
      with False have "xs ! i" by simp
      with inv that have "driver m = Some i" by (simp add: manager_inv_def)
      with drv False show False by simp
    qed
  qed
  from range dead drv show ?thesis
    by (simp add: none_alive_def)
qed

lemma quit_old_inv:
  assumes inv: "manager_inv (session_view s)" and run: "quit_old b s = (r, s')"
  shows "case r of Inl e \<Rightarrow> manager_inv (session_view s') | Inr u \<Rightarrow> none_alive (session_view s')"
proof -
  obtain m w where s: "s = (m, w)" by (cases s)
  show ?thesis
  proof (cases "driver m")
    case None
    with inv run s show ?thesis
      by (auto simp add: session_view_def manager_inv_def none_alive_def)
  next
    case (Some d)
    show ?thesis
    proof (cases "fails b (trace w) d DeleteAllCookies")
      case purge_raises: (Some e)
      with Some inv run s show ?thesis
        by (auto simp add: and_then_def session_view_def)
    next
      case purged: None
      show ?thesis
      proof (cases "fails b (trace w @ [Call d DeleteAllCookies]) d Quit")
        case quit_raises: (Some e)
        with purged Some inv run s show ?thesis
          by (auto simp add: and_then_def session_view_def)
      next
        case None
        with purged Some run s have
          "r = Inr ()" "session_view s' = (m, (alive w)[d := False])"
          by (auto simp add: and_then_def returns_def session_view_def)
        moreover from inv s Some have "none_alive (m, (alive w)[d := False])"
          by (simp add: session_view_def quit_none_alive)
        ultimately show ?thesis by simp
      qed
    qed
  qed
qed

lemma keeps_local_tail:
  "keeps session_view
     (and_then (uniform rng a1 c1) (\<lambda>width.
      and_then (uniform rng a2 c2) (\<lambda>height.
      and_then (driver_call b (SetWindowSize width height)) (\<lambda>_.
      and_then (driver_call b ClearPool) (\<lambda>_.
      and_then (driver_call b (ReplacePool 1 False)) (\<lambda>_.
      returns ()))))))"
  by (intro keeps_and_then keeps_uniform keeps_driver_call keeps_returns) simp_all

lemma start_local_view:
  assumes "start_local b (m, w) = (r, s')"
  shows "case r of
           Inl e \<Rightarrow> session_view s' = (m, alive w)
         | Inr u \<Rightarrow> session_view s' = (m\<lparr>driver := Some (length (alive w))\<rparr>, alive w @ [True])"
  using assms by (auto simp add: session_view_def split: option.splits)

lemma local_session_view:
  assumes run: "local_session b rng (m, w) = (r, s')"
  shows "session_view s' = (m, alive w) \<or>
         session_view s' = (m\<lparr>driver := Some (length (alive w))\<rparr>, alive w @ [True])"
proof -
  obtain r1 s1 where st: "start_local b (m, w) = (r1, s1)" by (cases "start_local b (m, w)")
  show ?thesis
  proof (cases r1)
    case (Inl e)
    with st run start_local_view [OF st] show ?thesis
      by (auto simp add: local_session_def and_then_def)
  next
    case (Inr u)
    let ?tail = "and_then (uniform rng (1920 * 0.5) 1920) (\<lambda>width.
      and_then (uniform rng (1080 * 0.5) 1080) (\<lambda>height.
      and_then (driver_call b (SetWindowSize width height)) (\<lambda>_.
      and_then (driver_call b ClearPool) (\<lambda>_.
      and_then (driver_call b (ReplacePool 1 False)) (\<lambda>_.
      returns ())))))"
    from st run Inr have "?tail s1 = (r, s')"
      by (simp add: local_session_def and_then_def)
    from keepsD [OF keeps_local_tail this] start_local_view [OF st] Inr
    show ?thesis by simp
  qed
qed

lemma create_session_view:
  assumes run: "create_session b rng (m, w) = (r, s')"
  shows "session_view s' = (m, alive w) \<or>
         session_view s' = (m\<lparr>driver := Some (length (alive w))\<rparr>, alive w @ [True])"
proof (cases "driver_kwargs m ''executable_path''")
  case None
  with run show ?thesis by (auto simp add: session_view_def)
next
  case (Some a)
  show ?thesis
  proof (cases "a = NoneArg")
    case False
    with Some run have "local_session b rng (m, w) = (r, s')" by simp
    then show ?thesis by (rule local_session_view)
  next
    case True
    with Some run show ?thesis
      by (auto simp add: session_view_def remote_options_key_def split: option.splits)
  qed
qed

lemma install_hook_view: "install_hook s = (r, s') \<Longrightarrow> session_view s' = session_view s"
  by (cases s) (auto simp add: session_view_def split: option.splits)

lemma started_inv:
  "none_alive (m, xs) \<Longrightarrow> manager_inv (m\<lparr>driver := Some (length xs)\<rparr>, xs @ [True])"
  by (auto simp add: none_alive_def manager_inv_def nth_append)

lemma replace_driver_inv:
  assumes inv: "manager_inv (session_view s)" and run: "replace_driver b rng s = (r, s')"
  shows "manager_inv (session_view s')"
proof -
  obtain r1 s1 where q: "quit_old b s = (r1, s1)" by (cases "quit_old b s")
  show ?thesis
  proof (cases r1)
    case (Inl e)
    with q run quit_old_inv [OF inv q] show ?thesis
      by (simp add: replace_driver_def and_then_def)
  next
    case (Inr u)
    with quit_old_inv [OF inv q] have dead: "none_alive (session_view s1)" by simp
    obtain m1 w1 where s1: "s1 = (m1, w1)" by (cases s1)
    obtain r2 s2 where c: "create_session b rng (m1, w1) = (r2, s2)"
      by (cases "create_session b rng (m1, w1)")
    from create_session_view [OF c] dead s1 have inv2: "manager_inv (session_view s2)"
      by (auto simp add: session_view_def none_alive_inv started_inv)
    show ?thesis
    proof (cases r2)
      case (Inl e)
      with q Inr s1 c run inv2 show ?thesis
        by (simp add: replace_driver_def and_then_def)
    next
      case created: (Inr u2)
      with q Inr s1 c run have "install_hook s2 = (r, s')"
        by (simp add: replace_driver_def and_then_def)
      from install_hook_view [OF this] inv2 show ?thesis by simp
    qed
  qed
qed

lemma quit_keeps_inv:
  assumes inv: "manager_inv (m, xs)" and drv: "driver m = Some d"
  shows "manager_inv (m, xs[d := False])"
proof -
  have range: "d < length xs"
    using inv drv by (simp add: manager_inv_def)
  have only: "driver m = Some i" if "i < length xs" and "xs[d := False] ! i" for i
  proof (cases "i = d")
    case True
    with that range show ?thesis by simp
  next
    case False
    with that have "xs ! i" by simp
    with inv that(1) show ?thesis by (simp add: manager_inv_def)
  qed
  from range only drv show ?thesis
    by (simp add: manager_inv_def)
qed

lemma spider_closed_inv:
  assumes inv: "manager_inv (session_view s)" and run: "spider_closed b s = (r, s')"
  shows "manager_inv (session_view s')"
proof -
  obtain m w where s: "s = (m, w)" by (cases s)
  show ?thesis
  proof (cases "driver m")
    case None
    with inv run s show ?thesis
      by (auto simp add: spider_closed_def and_then_def session_view_def)
  next
    case (Some d)
    show ?thesis
    proof (cases "fails b (trace w) d Quit")
      case quit_raises: (Some e)
      with Some inv run s show ?thesis
        by (auto simp add: spider_closed_def and_then_def session_view_def)
    next
      case None
      with Some run s have "session_view s' = (m, (alive w)[d := False])"
        by (auto simp add: spider_closed_def and_then_def returns_def session_view_def)
      moreover from inv s Some have "manager_inv (m, (alive w)[d := False])"
        by (simp add: session_view_def quit_keeps_inv)
      ultimately show ?thesis by simp
    qed
  qed
qed

lemma step_inv:
  assumes inv: "manager_inv (session_view s)"
  shows "manager_inv (session_view (step b rng op s))"
proof (cases op)
  case ReplaceDriver
  obtain r s' where "replace_driver b rng s = (r, s')" by (cases "replace_driver b rng s")
  from replace_driver_inv [OF inv this] this ReplaceDriver show ?thesis by simp
next
  case (ProcessRequest request spider)
  obtain r rq' s' where run: "process_request b rng request spider s = (r, (rq', s'))"
    by (cases "process_request b rng request spider s") auto
  from process_request_keeps_sessions [OF run] inv run ProcessRequest show ?thesis by simp
next
  case SpiderClosed
  obtain r s' where "spider_closed b s = (r, s')" by (cases "spider_closed b s")
  from spider_closed_inv [OF inv this] this SpiderClosed show ?thesis by simp
qed

lemma run_inv:
  "manager_inv (session_view s) \<Longrightarrow> manager_inv (session_view (run b rng ops s))"
  by (induction ops arbitrary: s) (simp_all add: step_inv)

lemma no_alive_filter: "\<forall>i < length xs. \<not> xs ! i \<Longrightarrow> filter (\<lambda>a. a) xs = []"
  by (auto simp add: filter_empty_conv in_set_conv_nth)

lemma at_most_one_filter:
  "\<forall>i < length xs. xs ! i \<longrightarrow> i = d \<Longrightarrow> length (filter (\<lambda>a. a) xs) \<le> 1"
proof (induction xs arbitrary: d)
  case Nil
  then show ?case by simp
next
  case (Cons x xs)
  have later: "xs ! i \<longrightarrow> Suc i = d" if "i < length xs" for i
    using Cons.prems [rule_format, of "Suc i"] that by simp
  show ?case
  proof (cases x)
    case True
    with Cons.prems [rule_format, of 0] have "d = 0" by simp
    with later have "\<forall>i < length xs. \<not> xs ! i" by auto
    from no_alive_filter [OF this] True show ?thesis by simp
  next
    case False
    have "xs ! i \<longrightarrow> i = d - 1" if "i < length xs" for i
      using later [OF that] by auto
    then have "\<forall>i < length xs. xs ! i \<longrightarrow> i = d - 1" by blast
    from Cons.IH [OF this] False show ?thesis by simp
  qed
qed

lemma inv_at_most_one:
  assumes "manager_inv (m, xs)"
  shows "length (filter (\<lambda>a. a) xs) \<le> 1"
proof (cases "driver m")
  case None
  with assms have "\<forall>i < length xs. \<not> xs ! i" by (simp add: manager_inv_def)
  from no_alive_filter [OF this] show ?thesis by simp
next
  case (Some d)
  with assms have "\<forall>i < length xs. xs ! i \<longrightarrow> i = d" by (simp add: manager_inv_def)
  then show ?thesis by (rule at_most_one_filter)
qed

lemma init_Inr:
  assumes "init b rng name path browser executor args prefs profile cr crd w0 = (Inr m, w1)"
  shows "\<exists>opts d. replace_driver b rng (new_middleware name path executor opts profile, w0) =
           (Inr d, (m, w1))"
  using assms unfolding init_def
  by (auto split: if_splits option.splits prod.splits sum.splits)

lemma from_crawler_Inr:
  assumes built: "from_crawler b rng crawler w0 = (Inr m, w)"
  shows "\<exists>self d w1. driver self = None \<and>
           replace_driver b rng (self, w0) = (Inr d, (m, w1)) \<and> alive w = alive w1"
proof -
  from built obtain name where name: "SELENIUM_DRIVER_NAME crawler = Some name"
    by (cases "SELENIUM_DRIVER_NAME crawler") (auto simp add: from_crawler_def)
  from built name obtain w1 where
      constructed: "init b rng name (SELENIUM_DRIVER_EXECUTABLE_PATH crawler)
                    (SELENIUM_BROWSER_EXECUTABLE_PATH crawler)
                    (SELENIUM_COMMAND_EXECUTOR crawler)
                    (SELENIUM_DRIVER_ARGUMENTS crawler)
                    (SELENIUM_DRIVER_PREFERENCES crawler)
                    (SELENIUM_DRIVER_PROFILE crawler)
                    (CONCURRENT_REQUESTS crawler)
                    (CONCURRENT_REQUESTS_PER_DOMAIN crawler) w0 = (Inr m, w1)"
    and w: "alive w = alive w1"
    by (auto simp add: from_crawler_def split: if_splits prod.splits sum.splits)
  from init_Inr [OF constructed] obtain opts d where
    "replace_driver b rng
       (new_middleware name (SELENIUM_DRIVER_EXECUTABLE_PATH crawler)
          (SELENIUM_COMMAND_EXECUTOR crawler) opts (SELENIUM_DRIVER_PROFILE crawler), w0) =
     (Inr d, (m, w1))"
    by blast
  moreover have "driver (new_middleware name (SELENIUM_DRIVER_EXECUTABLE_PATH crawler)
          (SELENIUM_COMMAND_EXECUTOR crawler) opts (SELENIUM_DRIVER_PROFILE crawler)) = None"
    by (simp add: new_middleware_def Let_def)
  ultimately show ?thesis using w by blast
qed

lemma from_crawler_inv:
  assumes fresh: "True \<notin> set (alive w0)"
    and built: "from_crawler b rng crawler w0 = (Inr m, w)"
  shows "manager_inv (session_view (m, w))"
proof -
  from from_crawler_Inr [OF built] obtain self d w1 where
      none: "driver self = None"
    and replaced: "replace_driver b rng (self, w0) = (Inr d, (m, w1))"
    and w: "alive w = alive w1"
    by blast
  from fresh have "\<forall>i < length (alive w0). \<not> alive w0 ! i"
    by (metis nth_mem)
  with none have "manager_inv (session_view (self, w0))"
    by (simp add: manager_inv_def session_view_def)
  from replace_driver_inv [OF this replaced] w show ?thesis
    by (simp add: session_view_def)
qed

lemma replace_driver_returns_driver:
  assumes "replace_driver b rng s = (Inr d, s')"
  shows "driver (fst s') = Some d"
proof -
  from assms [unfolded replace_driver_def] obtain u1 s1 where
      "quit_old b s = (Inr u1, s1)"
    and r1: "and_then (create_session b rng) (\<lambda>_. install_hook) s1 = (Inr d, s')"
    by (rule and_then_InrE)
  from r1 obtain u2 s2 where "create_session b rng s1 = (Inr u2, s2)"
    and hook: "install_hook s2 = (Inr d, s')"
    by (rule and_then_InrE)
  from hook show ?thesis
    by (cases s2) (auto split: option.splits)
qed

lemma replace_driver_quits_old:
  assumes inv: "manager_inv (session_view s)" and old: "driver (fst s) = Some d"
    and run: "replace_driver b rng s = (Inr d2, s')"
  shows "d < length (alive (snd s')) \<and> \<not> alive (snd s') ! d"
proof -
  obtain m w where s: "s = (m, w)" by (cases s)
  from inv old s have range: "d < length (alive w)"
    by (simp add: manager_inv_def session_view_def)
  from run [unfolded replace_driver_def] obtain u1 s1 where
      quit: "quit_old b s = (Inr u1, s1)"
    and r1: "and_then (create_session b rng) (\<lambda>_. install_hook) s1 = (Inr d2, s')"
    by (rule and_then_InrE)
  from r1 obtain u2 s2 where created: "create_session b rng s1 = (Inr u2, s2)"
    and hook: "install_hook s2 = (Inr d2, s')"
    by (rule and_then_InrE)
  obtain m1 w1 where s1: "s1 = (m1, w1)" by (cases s1)
  from quit s old s1 have w1: "alive w1 = (alive w)[d := False]"
    by (auto simp add: and_then_def returns_def split: option.splits)
  from create_session_view [OF created [unfolded s1]] install_hook_view [OF hook]
  have "alive (snd s') = alive w1 \<or> alive (snd s') = alive w1 @ [True]"
    by (auto simp add: session_view_def)
  with w1 range show ?thesis
    by (auto simp add: nth_append)
qed

text \<open>
  C3. Take a middleware object that \<^verbatim>\<open>from_crawler\<close> returned, in a world where no
  session was alive before, and let any sequence of \<^verbatim>\<open>replace_driver\<close>,
  \<^verbatim>\<open>process_request\<close> and \<^verbatim>\<open>spider_closed\<close> calls run on it, on any backend, whether
  the calls return or raise. In the state reached, at most one session is alive. And when
  two consecutive calls of \<^verbatim>\<open>replace_driver\<close> return from there, the session the first
  one returned is not alive after the second (and still at most one session is).
\<close>

theorem at_most_one_session_alive:
  assumes fresh: "True \<notin> set (alive w0)"
    and built: "from_crawler b rng crawler w0 = (Inr m, w)"
  shows "length (filter (\<lambda>a. a) (alive (snd (run b rng ops (m, w))))) \<le> 1 \<and>
         (\<forall>d1 s1 d2 s2.
            replace_driver b rng (run b rng ops (m, w)) = (Inr d1, s1) \<and>
            replace_driver b rng s1 = (Inr d2, s2) \<longrightarrow>
              d1 < length (alive (snd s2)) \<and> \<not> alive (snd s2) ! d1 \<and>
              length (filter (\<lambda>a. a) (alive (snd s2))) \<le> 1)"
proof -
  let ?s = "run b rng ops (m, w)"
  have inv: "manager_inv (session_view ?s)"
    using from_crawler_inv [OF fresh built] by (rule run_inv)
  then have one: "length (filter (\<lambda>a. a) (alive (snd ?s))) \<le> 1"
    unfolding session_view_def by (rule inv_at_most_one)
  have two: "d1 < length (alive (snd s2)) \<and> \<not> alive (snd s2) ! d1 \<and>
      length (filter (\<lambda>a. a) (alive (snd s2))) \<le> 1"
    if first: "replace_driver b rng ?s = (Inr d1, s1)"
      and second: "replace_driver b rng s1 = (Inr d2, s2)" for d1 s1 d2 s2
  proof -
    have inv1: "manager_inv (session_view s1)"
      using inv first by (rule replace_driver_inv)
    have inv2: "manager_inv (session_view s2)"
      using inv1 second by (rule replace_driver_inv)
    have "length (filter (\<lambda>a. a) (alive (snd s2))) \<le> 1"
      using inv2 unfolding session_view_def by (rule inv_at_most_one)
    with replace_driver_quits_old [OF inv1 replace_driver_returns_driver [OF first] second]
    show ?thesis by simp
  qed
  from one two show ?thesis by blast
qed

theorem at_most_one_session_alive_witness:
  "True \<notin> set (alive empty_world) \<and>
   from_crawler working_backend half local_settings empty_world =
     (Inr local_middleware, after_start) \<and>
   run working_backend half [ProcessRequest plain_request local_settings]
     (local_middleware, after_start) = (local_middleware, after_start) \<and>
   replace_driver working_backend half (local_middleware, after_start) =
     (Inr 1, first_replaced) \<and>
   replace_driver working_backend half first_replaced = (Inr 2, second_replaced) \<and>
   alive (snd second_replaced) = [False, False, True] \<and>
   1 < length (alive (snd second_replaced)) \<and> \<not> alive (snd second_replaced) ! 1 \<and>
   length (filter (\<lambda>a. a) (alive (snd second_replaced))) \<le> 1"
proof -
  have fresh: "True \<notin> set (alive empty_world)"
    by (simp add: empty_world_def)
  have built: "from_crawler working_backend half local_settings empty_world =
      (Inr local_middleware, after_start)"
    by (simp add: from_crawler_local_settings after_start_def)
  have ran: "run working_backend half [ProcessRequest plain_request local_settings]
      (local_middleware, after_start) = (local_middleware, after_start)"
    by (simp add: process_request_def plain_request_def)
  have first: "replace_driver working_backend half (local_middleware, after_start) =
      (Inr 1, first_replaced)"
    by (simp add: replace_driver_def and_then_def returns_def local_session_def
        working_backend_def local_middleware_def after_start_def first_replaced_def half_def)
  have second: "replace_driver working_backend half first_replaced = (Inr 2, second_replaced)"
    by (simp add: replace_driver_def and_then_def returns_def local_session_def
        working_backend_def local_middleware_def after_start_def first_replaced_def
        second_replaced_def half_def)
  from at_most_one_session_alive
    [OF fresh built, of "[ProcessRequest plain_request local_settings]"]
  have "replace_driver working_backend half
          (run working_backend half [ProcessRequest plain_request local_settings]
             (local_middleware, after_start)) = (Inr 1, first_replaced) \<and>
        replace_driver working_backend half first_replaced = (Inr 2, second_replaced) \<longrightarrow>
        1 < length (alive (snd second_replaced)) \<and> \<not> alive (snd second_replaced) ! 1 \<and>
        length (filter (\<lambda>a. a) (alive (snd second_replaced))) \<le> 1"
    by blast
  with ran first second have
    "1 < length (alive (snd second_replaced)) \<and> \<not> alive (snd second_replaced) ! 1 \<and>
     length (filter (\<lambda>a. a) (alive (snd second_replaced))) \<le> 1"
    by simp
  moreover have "alive (snd second_replaced) = [False, False, True]"
    by (simp add: second_replaced_def)
  ultimately show ?thesis
    using fresh built ran first second by blast
qed

end
